theory Spec2Isabelle
  imports Main
begin

section \<open>Documents and change sets\<close>

text \<open>
  The unified merge view (src/unified.ts) works on two documents: the original document A,
  kept in the state field \<open>originalDoc\<close>, and the editor's own document B
  (\<open>state.doc\<close>). Both are values of the editor library's \<open>Text\<close> type. A document is
  modelled as the sequence of its code units, the character \<open>CHR 0x0A\<close> standing for a line
  break; a position is an offset into that sequence. The editor is taken in its default
  configuration (no \<open>lineSeparator\<close> facet, no transaction filters), so
  \<open>state.lineBreak\<close> is the one-character string holding \<open>CHR 0x0A\<close>.
\<close>

type_synonym Text = string

datatype error = RangeError

definition lineBreak :: string where
  "lineBreak = [CHR 0x0A]"

text \<open>
  \<open>Text.sliceString(from, to)\<close>: both ends are clipped into the document, and an end before
  the start gives the empty string.
\<close>

definition sliceString :: "Text \<Rightarrow> nat \<Rightarrow> nat \<Rightarrow> string" where
  "sliceString d frm to = take (to - frm) (drop frm d)"

text \<open>
  \<open>Text.of(s.split(/\r\n?|\n/))\<close>: what a change set does with an inserted string. Every
  line terminator of the string becomes one line break of the document.
\<close>

fun textOf :: "string \<Rightarrow> Text" where
  "textOf [] = []"
| "textOf [c] = (if c = CHR 0x0D then [CHR 0x0A] else [c])"
| "textOf (c # d # cs) =
     (if c = CHR 0x0D then
        (if d = CHR 0x0A then CHR 0x0A # textOf cs else CHR 0x0A # textOf (d # cs))
      else c # textOf (d # cs))"

text \<open>
  A \<open>ChangeSet\<close> is the library's list of sections: a stretch of the old document that is
  kept, or a stretch that is replaced by an inserted Text.
\<close>

datatype Section = Keep nat | Replace nat Text

type_synonym ChangeSet = "Section list"

fun sectionLen :: "Section \<Rightarrow> nat" where
  "sectionLen (Keep n) = n"
| "sectionLen (Replace n ins) = n"

fun sectionNewLen :: "Section \<Rightarrow> nat" where
  "sectionNewLen (Keep n) = n"
| "sectionNewLen (Replace n ins) = length ins"

text \<open>\<open>ChangeSet.length\<close> and \<open>ChangeSet.newLength\<close>.\<close>

definition cs_length :: "ChangeSet \<Rightarrow> nat" where
  "cs_length cs = sum_list (map sectionLen cs)"

definition cs_newLength :: "ChangeSet \<Rightarrow> nat" where
  "cs_newLength cs = sum_list (map sectionNewLen cs)"

text \<open>\<open>ChangeSet.empty\<close>: no section, or one section that keeps everything.\<close>

fun cs_empty :: "ChangeSet \<Rightarrow> bool" where
  "cs_empty [] = True"
| "cs_empty [Keep n] = True"
| "cs_empty cs = False"

fun applySections :: "ChangeSet \<Rightarrow> Text \<Rightarrow> Text" where
  "applySections [] d = d"
| "applySections (Keep n # cs) d = take n d @ applySections cs (drop n d)"
| "applySections (Replace n ins # cs) d = ins @ applySections cs (drop n d)"

text \<open>
  \<open>ChangeSet.apply(doc)\<close> raises a RangeError on a document of another length than the one
  the change set was made for.
\<close>

definition cs_apply :: "ChangeSet \<Rightarrow> Text \<Rightarrow> error + Text" where
  "cs_apply cs d = (if cs_length cs \<noteq> length d then Inl RangeError else Inr (applySections cs d))"

text \<open>\<open>ChangeSet.invert(doc)\<close>: \<open>doc\<close> is the document before the change.\<close>

fun cs_invert :: "ChangeSet \<Rightarrow> Text \<Rightarrow> ChangeSet" where
  "cs_invert [] d = []"
| "cs_invert (Keep n # cs) d = Keep n # cs_invert cs (drop n d)"
| "cs_invert (Replace n ins # cs) d = Replace (length ins) (take n d) # cs_invert cs (drop n d)"

text \<open>
  \<open>ChangeDesc.mapPos(pos)\<close> with its default arguments (\<open>assoc = -1\<close>, simple mode): the
  loop over the sections carries the position reached in the old document (\<open>posA\<close>) and in
  the new one (\<open>posB\<close>). A position beyond the old document raises a RangeError.
\<close>

fun mapPosFrom :: "nat \<Rightarrow> nat \<Rightarrow> ChangeSet \<Rightarrow> nat \<Rightarrow> error + nat" where
  "mapPosFrom posA posB [] pos = (if pos > posA then Inl RangeError else Inr posB)"
| "mapPosFrom posA posB (Keep len # cs) pos =
     (if posA + len > pos then Inr (posB + (pos - posA))
      else mapPosFrom (posA + len) (posB + len) cs pos)"
| "mapPosFrom posA posB (Replace len ins # cs) pos =
     (if posA + len > pos \<or> (posA + len = pos \<and> len = 0) then Inr posB
      else mapPosFrom (posA + len) (posB + length ins) cs pos)"

definition mapPos :: "ChangeSet \<Rightarrow> nat \<Rightarrow> error + nat" where
  "mapPos cs pos = mapPosFrom 0 0 cs pos"

text \<open>
  A change specification as the source writes it: the object \<open>{from, to, insert}\<close>, or a
  change set that already exists (the undo history passes one).
\<close>

datatype ChangeSpec = Replacement nat nat string | OfChangeSet ChangeSet

text \<open>
  \<open>ChangeSet.of(spec, length)\<close> for one specification. A range with \<open>from > to\<close> or
  \<open>to > length\<close> raises a RangeError, and so does a change set of another length. A
  replacement that deletes nothing and inserts nothing gives the empty change set.
\<close>

definition cs_keepAll :: "nat \<Rightarrow> ChangeSet" where
  "cs_keepAll n = (if n = 0 then [] else [Keep n])"

fun ChangeSet_of :: "ChangeSpec \<Rightarrow> nat \<Rightarrow> error + ChangeSet" where
  "ChangeSet_of (Replacement frm to ins) n =
     (if frm > to \<or> to > n then Inl RangeError
      else if frm = to \<and> textOf ins = [] then Inr (cs_keepAll n)
      else Inr (cs_keepAll frm @ [Replace (to - frm) (textOf ins)] @ cs_keepAll (n - to)))"
| "ChangeSet_of (OfChangeSet cs) n =
     (if cs_length cs \<noteq> n then Inl RangeError else Inr cs)"

section \<open>Chunks, effects, state and transactions\<close>

text \<open>
  Modelled from the spec: the class \<open>Chunk\<close> and the type \<open>Change\<close> are declared in
  chunk.ts and diff.ts, which are not among the sources; unified.ts reads the fields below.
  \<open>endA\<close> and \<open>endB\<close> are kept as fields of their own, as the specification's data
  model has them, with no relation to \<open>toA\<close> and \<open>toB\<close> assumed.
\<close>

datatype Change = Change nat nat nat nat

record Chunk =
  changes_of :: "Change list"
  fromA :: nat
  toA :: nat
  endA :: nat
  fromB :: nat
  toB :: nat
  endB :: nat

text \<open>
  The values of \<open>acceptChunkEffect\<close> and \<open>rejectChunkEffect\<close> share six fields; the accept
  value adds \<open>originalDoc\<close>, the reject value \<open>originalContent\<close>.
\<close>

record ChunkEffectValue =
  chunkFromA :: nat
  chunkToA :: nat
  chunkFromB :: nat
  chunkToB :: nat
  currentContent :: string
  changes :: ChangeSet

record AcceptValue = ChunkEffectValue +
  originalDoc :: Text

record RejectValue = ChunkEffectValue +
  originalContent :: string

text \<open>
  The four effect types of unified.ts: \<open>updateOriginalDoc\<close> with \<open>{doc, changes}\<close>,
  \<open>acceptChunkEffect\<close>, \<open>rejectChunkEffect\<close>, and \<open>generateCodeEffect\<close> with
  \<open>{generatedCode, replaceAll, insertAt}\<close>.
\<close>

datatype StateEffect =
    UpdateOriginalDoc Text ChangeSet
  | AcceptChunkEffect AcceptValue
  | RejectChunkEffect RejectValue
  | GenerateCodeEffect string bool "nat option"

fun is_updateOriginalDoc :: "StateEffect \<Rightarrow> bool" where
  "is_updateOriginalDoc (UpdateOriginalDoc d cs) = True"
| "is_updateOriginalDoc e = False"

fun is_acceptChunkEffect :: "StateEffect \<Rightarrow> bool" where
  "is_acceptChunkEffect (AcceptChunkEffect v) = True"
| "is_acceptChunkEffect e = False"

fun is_rejectChunkEffect :: "StateEffect \<Rightarrow> bool" where
  "is_rejectChunkEffect (RejectChunkEffect v) = True"
| "is_rejectChunkEffect e = False"

fun is_generateCodeEffect :: "StateEffect \<Rightarrow> bool" where
  "is_generateCodeEffect (GenerateCodeEffect g r i) = True"
| "is_generateCodeEffect e = False"

text \<open>
  The part of the editor state that unified.ts reads and writes: the document B, the state
  field \<open>originalDoc\<close> (document A) and the state field \<open>ChunkField\<close> (the chunk list).
\<close>

record EditorState =
  doc :: Text
  field_originalDoc :: Text
  field_ChunkField :: "Chunk list"

record Transaction =
  tr_startState :: EditorState
  tr_changes :: ChangeSet
  tr_effects :: "StateEffect list"
  tr_userEvent :: string

record TransactionSpec =
  spec_changes :: "ChangeSpec option"
  spec_effects :: "StateEffect list"
  spec_userEvent :: string

text \<open>\<open>state.sliceDoc(from, to)\<close>.\<close>

definition sliceDoc :: "EditorState \<Rightarrow> nat \<Rightarrow> nat \<Rightarrow> string" where
  "sliceDoc state frm to = sliceString (doc state) frm to"

text \<open>\<open>state.update(spec)\<close>: the transaction of a specification, on the state it starts from.\<close>

definition state_update :: "EditorState \<Rightarrow> TransactionSpec \<Rightarrow> error + Transaction" where
  "state_update state spec =
     (case (case spec_changes spec of
              None \<Rightarrow> Inr (cs_keepAll (length (doc state)))
            | Some c \<Rightarrow> ChangeSet_of c (length (doc state))) of
        Inl e \<Rightarrow> Inl e
      | Inr cs \<Rightarrow>
          Inr \<lparr>tr_startState = state, tr_changes = cs, tr_effects = spec_effects spec,
               tr_userEvent = spec_userEvent spec\<rparr>)"

definition tr_docChanged :: "Transaction \<Rightarrow> bool" where
  "tr_docChanged tr = (\<not> cs_empty (tr_changes tr))"

definition tr_newDoc :: "Transaction \<Rightarrow> error + Text" where
  "tr_newDoc tr = cs_apply (tr_changes tr) (doc (tr_startState tr))"

section \<open>The state field originalDoc\<close>

text \<open>
  \<open>originalDoc.update(doc, tr)\<close>: the loop over the transaction's effects. An
  \<open>updateOriginalDoc\<close> effect replaces the document, an accept effect applies its changes
  to it, a reject effect leaves it as it is.
\<close>

fun originalDoc_update :: "Text \<Rightarrow> StateEffect list \<Rightarrow> error + Text" where
  "originalDoc_update d [] = Inr d"
| "originalDoc_update d (UpdateOriginalDoc d' cs # es) = originalDoc_update d' es"
| "originalDoc_update d (AcceptChunkEffect v # es) =
     (case cs_apply (changes v) d of
        Inl e \<Rightarrow> Inl e
      | Inr d' \<Rightarrow> originalDoc_update d' es)"
| "originalDoc_update d (RejectChunkEffect v # es) = originalDoc_update d es"
| "originalDoc_update d (GenerateCodeEffect g r i # es) = originalDoc_update d es"

text \<open>\<open>tr.state.field(originalDoc)\<close>.\<close>

definition tr_originalDoc :: "Transaction \<Rightarrow> error + Text" where
  "tr_originalDoc tr = originalDoc_update (field_originalDoc (tr_startState tr)) (tr_effects tr)"

section \<open>Recomputing the chunk list\<close>

text \<open>
  \<open>Chunk.build\<close>, \<open>Chunk.updateA\<close> and \<open>Chunk.updateB\<close> (chunk.ts) are not among the
  sources. The reducer that unified.ts registers with \<open>computeChunks\<close> takes them as a
  parameter, with the configuration \<open>diffConf\<close> handed to each of them. The reducer also
  records which of the three it called, in order. It runs while the state of the
  transaction is computed, together with the new document and the field \<open>originalDoc\<close>:
  a RangeError in either of them is an error of the transaction, and of the reducer here.
\<close>

record 'cfg ChunkOps =
  Chunk_build :: "Text \<Rightarrow> Text \<Rightarrow> 'cfg \<Rightarrow> Chunk list"
  Chunk_updateA :: "Chunk list \<Rightarrow> Text \<Rightarrow> Text \<Rightarrow> ChangeSet \<Rightarrow> 'cfg \<Rightarrow> Chunk list"
  Chunk_updateB :: "Chunk list \<Rightarrow> Text \<Rightarrow> Text \<Rightarrow> ChangeSet \<Rightarrow> 'cfg \<Rightarrow> Chunk list"

datatype StoreCall = CallBuild | CallUpdateA | CallUpdateB

text \<open>The callback given to \<open>computeChunks.of\<close> in \<open>unifiedMergeView\<close>.\<close>

definition computeChunks ::
  "'cfg ChunkOps \<Rightarrow> 'cfg \<Rightarrow> Chunk list \<Rightarrow> Transaction \<Rightarrow> error + (StoreCall list \<times> Chunk list)" where
  "computeChunks ops diffConf chunks0 tr =
     (let updateDoc = find is_updateOriginalDoc (tr_effects tr);
          acceptEffect = find is_acceptChunkEffect (tr_effects tr);
          rejectEffect = find is_rejectChunkEffect (tr_effects tr);
          generateEffect = find is_generateCodeEffect (tr_effects tr);
          r1 = (case updateDoc of
                  Some (UpdateOriginalDoc d cs) \<Rightarrow>
                    ([CallUpdateA],
                     Chunk_updateA ops chunks0 d (doc (tr_startState tr)) cs diffConf)
                | _ \<Rightarrow> ([], chunks0))
      in case (case acceptEffect of
                 Some (AcceptChunkEffect v) \<Rightarrow>
                   (case cs_apply (changes v) (field_originalDoc (tr_startState tr)) of
                      Inl e \<Rightarrow> Inl e
                    | Inr newA \<Rightarrow>
                        Inr (fst r1 @ [CallUpdateA],
                             Chunk_updateA ops (snd r1) newA (doc (tr_startState tr))
                               (changes v) diffConf))
               | _ \<Rightarrow> Inr r1) of
           Inl e \<Rightarrow> Inl e
         | Inr r2 \<Rightarrow>
             (case tr_originalDoc tr of
                Inl e \<Rightarrow> Inl e
              | Inr origDoc \<Rightarrow>
                  (case tr_newDoc tr of
                     Inl e \<Rightarrow> Inl e
                   | Inr newDoc \<Rightarrow>
                       (let r3 = (if generateEffect \<noteq> None
                                  then (fst r2 @ [CallBuild],
                                        Chunk_build ops origDoc newDoc diffConf)
                                  else r2)
                        in Inr (if rejectEffect \<noteq> None \<or> (snd r3 \<noteq> [] \<and> tr_docChanged tr)
                                then (fst r3 @ [CallUpdateB],
                                      Chunk_updateB ops (snd r3) origDoc newDoc
                                        (tr_changes tr) diffConf)
                                else r3)))))"

text \<open>
  Modelled from the spec: the state field \<open>ChunkField\<close> (merge.ts) is not among the
  sources; its new value is the result of the reducer registered with \<open>computeChunks\<close> on
  its old value, the "(previous store, edit descriptor) -> new store" of the specification.
  With it, \<open>tr.state\<close> is the state a transaction produces: the new document is the old
  one with the transaction's changes, and the field \<open>originalDoc\<close> is updated by its own
  \<open>update\<close>.
\<close>

definition tr_state :: "'cfg ChunkOps \<Rightarrow> 'cfg \<Rightarrow> Transaction \<Rightarrow> error + EditorState" where
  "tr_state ops diffConf tr =
     (case tr_newDoc tr of
        Inl e \<Rightarrow> Inl e
      | Inr newDoc \<Rightarrow>
          (case tr_originalDoc tr of
             Inl e \<Rightarrow> Inl e
           | Inr origDoc \<Rightarrow>
               (case computeChunks ops diffConf (field_ChunkField (tr_startState tr)) tr of
                  Inl e \<Rightarrow> Inl e
                | Inr r \<Rightarrow>
                    Inr \<lparr>doc = newDoc, field_originalDoc = origDoc, field_ChunkField = snd r\<rparr>)))"

text \<open>\<open>view.dispatch(spec)\<close>: the view's state becomes the state of the transaction.\<close>

definition dispatch :: "'cfg ChunkOps \<Rightarrow> 'cfg \<Rightarrow> EditorState \<Rightarrow> TransactionSpec \<Rightarrow> error + EditorState" where
  "dispatch ops diffConf state spec =
     (case state_update state spec of
        Inl e \<Rightarrow> Inl e
      | Inr tr \<Rightarrow> tr_state ops diffConf tr)"

section \<open>Accepting and rejecting a chunk\<close>

text \<open>
  \<open>acceptChunk(view, pos)\<close> and \<open>rejectChunk(view, pos)\<close>. The argument \<open>at\<close> is the
  source's \<open>pos ?? state.selection.main.head\<close>, which the caller resolves: the selection is
  not read otherwise. Each function is given in two steps: the transaction specification
  it builds (\<open>None\<close> when it returns \<open>false\<close> before building one), and the call of
  \<open>view.dispatch\<close> on it. \<open>chunk.toB - 1\<close> is computed on natural numbers; at \<open>toB = 0\<close>
  the source's \<open>-1\<close> and the model's \<open>0\<close> give the same maximum with \<open>chunk.fromB\<close>.
\<close>

definition acceptChunk_spec :: "EditorState \<Rightarrow> nat \<Rightarrow> error + TransactionSpec option" where
  "acceptChunk_spec state at =
     (case find (\<lambda>ch. fromB ch \<le> at \<and> endB ch \<ge> at) (field_ChunkField state) of
        None \<Rightarrow> Inr None
      | Some chunk \<Rightarrow>
          (let insert0 = sliceDoc state (fromB chunk) (max (fromB chunk) (toB chunk - 1));
               orig = field_originalDoc state;
               insert1 = (if fromB chunk \<noteq> toB chunk \<and> toA chunk \<le> length orig
                          then insert0 @ lineBreak else insert0)
           in case ChangeSet_of
                     (Replacement (fromA chunk) (min (length orig) (toA chunk)) insert1)
                     (length orig) of
                Inl e \<Rightarrow> Inl e
              | Inr cs \<Rightarrow>
                  Inr (Some \<lparr>spec_changes = None,
                     spec_effects = [AcceptChunkEffect
                       \<lparr>chunkFromA = fromA chunk, chunkToA = toA chunk,
                        chunkFromB = fromB chunk, chunkToB = toB chunk,
                        currentContent = insert1, changes = cs, originalDoc = orig\<rparr>],
                     spec_userEvent = ''accept''\<rparr>)))"

definition acceptChunk ::
  "'cfg ChunkOps \<Rightarrow> 'cfg \<Rightarrow> EditorState \<Rightarrow> nat \<Rightarrow> error + (bool \<times> EditorState)" where
  "acceptChunk ops diffConf view at =
     (case acceptChunk_spec view at of
        Inl e \<Rightarrow> Inl e
      | Inr None \<Rightarrow> Inr (False, view)
      | Inr (Some spec) \<Rightarrow>
          (case dispatch ops diffConf view spec of
             Inl e \<Rightarrow> Inl e
           | Inr view' \<Rightarrow> Inr (True, view')))"

definition rejectChunk_spec :: "EditorState \<Rightarrow> nat \<Rightarrow> error + TransactionSpec option" where
  "rejectChunk_spec state at =
     (case find (\<lambda>ch. fromB ch \<le> at \<and> endB ch \<ge> at) (field_ChunkField state) of
        None \<Rightarrow> Inr None
      | Some chunk \<Rightarrow>
          (let orig = field_originalDoc state;
               insert0 = sliceString orig (fromA chunk) (max (fromA chunk) (toA chunk - 1));
               insert1 = (if fromA chunk \<noteq> toA chunk \<and> toB chunk \<le> length (doc state)
                          then insert0 @ lineBreak else insert0);
               currentContent0 = sliceDoc state (fromB chunk) (max (fromB chunk) (toB chunk - 1))
           in case ChangeSet_of
                     (Replacement (fromB chunk) (min (length (doc state)) (toB chunk)) insert1)
                     (length (doc state)) of
                Inl e \<Rightarrow> Inl e
              | Inr cs \<Rightarrow>
                  Inr (Some \<lparr>spec_changes =
                       Some (Replacement (fromB chunk) (min (length (doc state)) (toB chunk))
                               insert1),
                     spec_effects = [RejectChunkEffect
                       \<lparr>chunkFromA = fromA chunk, chunkToA = toA chunk,
                        chunkFromB = fromB chunk, chunkToB = toB chunk,
                        currentContent = currentContent0, changes = cs,
                        originalContent = insert1\<rparr>],
                     spec_userEvent = ''revert''\<rparr>)))"

definition rejectChunk ::
  "'cfg ChunkOps \<Rightarrow> 'cfg \<Rightarrow> EditorState \<Rightarrow> nat \<Rightarrow> error + (bool \<times> EditorState)" where
  "rejectChunk ops diffConf view at =
     (case rejectChunk_spec view at of
        Inl e \<Rightarrow> Inl e
      | Inr None \<Rightarrow> Inr (False, view)
      | Inr (Some spec) \<Rightarrow>
          (case dispatch ops diffConf view spec of
             Inl e \<Rightarrow> Inl e
           | Inr view' \<Rightarrow> Inr (True, view')))"

section \<open>Mapping a pending effect through a document change\<close>

text \<open>
  The \<open>map\<close> functions of \<open>acceptChunkEffect\<close> and \<open>rejectChunkEffect\<close>: \<open>None\<close> is the
  source's \<open>undefined\<close>, which drops the effect.
\<close>

definition acceptChunkEffect_map :: "AcceptValue \<Rightarrow> ChangeSet \<Rightarrow> error + AcceptValue option" where
  "acceptChunkEffect_map v change =
     (case mapPos change (chunkFromB v) of
        Inl e \<Rightarrow> Inl e
      | Inr fromB' \<Rightarrow>
          (case mapPos change (chunkToB v) of
             Inl e \<Rightarrow> Inl e
           | Inr toB' \<Rightarrow>
               Inr (if fromB' < toB' then Some (v\<lparr>chunkFromB := fromB', chunkToB := toB'\<rparr>)
                    else None)))"

definition rejectChunkEffect_map :: "RejectValue \<Rightarrow> ChangeSet \<Rightarrow> error + RejectValue option" where
  "rejectChunkEffect_map v change =
     (case mapPos change (chunkFromB v) of
        Inl e \<Rightarrow> Inl e
      | Inr fromB' \<Rightarrow>
          (case mapPos change (chunkToB v) of
             Inl e \<Rightarrow> Inl e
           | Inr toB' \<Rightarrow>
               Inr (if fromB' < toB' then Some (v\<lparr>chunkFromB := fromB', chunkToB := toB'\<rparr>)
                    else None)))"

section \<open>Generated code\<close>

text \<open>
  \<open>applyGeneratedCode(view, generatedCode, options)\<close>: \<open>replaceAll\<close> is the option with its
  default \<open>true\<close> when absent, \<open>head\<close> is \<open>view.state.selection.main.head\<close>.
\<close>

definition applyGeneratedCode_spec ::
  "EditorState \<Rightarrow> nat \<Rightarrow> string \<Rightarrow> bool option \<Rightarrow> nat option \<Rightarrow> TransactionSpec" where
  "applyGeneratedCode_spec view head generatedCode replaceAllOpt insertAt =
     (let replaceAll = (case replaceAllOpt of None \<Rightarrow> True | Some b \<Rightarrow> b);
          chg = (if replaceAll then Replacement 0 (length (doc view)) generatedCode
                 else (case insertAt of
                         Some i \<Rightarrow> Replacement i i generatedCode
                       | None \<Rightarrow> Replacement head head generatedCode))
      in \<lparr>spec_changes = Some chg,
          spec_effects = [GenerateCodeEffect generatedCode replaceAll insertAt],
          spec_userEvent = ''generate.code''\<rparr>)"

definition applyGeneratedCode ::
  "'cfg ChunkOps \<Rightarrow> 'cfg \<Rightarrow> EditorState \<Rightarrow> nat \<Rightarrow> string \<Rightarrow> bool option \<Rightarrow> nat option
     \<Rightarrow> error + EditorState" where
  "applyGeneratedCode ops diffConf view head generatedCode replaceAllOpt insertAt =
     dispatch ops diffConf view
       (applyGeneratedCode_spec view head generatedCode replaceAllOpt insertAt)"

section \<open>Undo\<close>

text \<open>
  The function that \<open>createUndoableChunkOperations\<close> registers with \<open>invertedEffects\<close>: the
  effects that undo the accept and reject effects of a transaction.
\<close>

fun invertedEffect :: "Transaction \<Rightarrow> StateEffect \<Rightarrow> StateEffect list" where
  "invertedEffect tr (AcceptChunkEffect v) =
     [UpdateOriginalDoc (originalDoc v)
        (cs_invert (changes v) (field_originalDoc (tr_startState tr)))]"
| "invertedEffect tr (RejectChunkEffect v) =
     [RejectChunkEffect
        \<lparr>chunkFromA = chunkFromA v, chunkToA = chunkToA v,
         chunkFromB = chunkFromB v, chunkToB = chunkToB v,
         currentContent = originalContent v,
         changes = cs_invert (changes v) (doc (tr_startState tr)),
         originalContent = currentContent v\<rparr>]"
| "invertedEffect tr e = []"

definition undoableChunkOperations :: "Transaction \<Rightarrow> StateEffect list" where
  "undoableChunkOperations tr = concat (map (invertedEffect tr) (tr_effects tr))"

text \<open>
  The undo history is the editor library's. What it records for a transaction, at the time
  the transaction is applied, is the inverse of the transaction's document changes together
  with the effects that the registered function returns; nothing is recorded when both are
  empty. Undoing dispatches what was recorded.
\<close>

definition history_event :: "Transaction \<Rightarrow> TransactionSpec option" where
  "history_event tr =
     (let effects = undoableChunkOperations tr in
      if effects = [] \<and> cs_empty (tr_changes tr) then None
      else Some \<lparr>spec_changes =
                   Some (OfChangeSet (cs_invert (tr_changes tr) (doc (tr_startState tr)))),
                 spec_effects = effects, spec_userEvent = ''undo''\<rparr>)"

section \<open>A coarse instance of the chunk operations\<close>

text \<open>
  Modelled from the spec: \<open>Chunk.build\<close>, \<open>Chunk.updateA\<close> and \<open>Chunk.updateB\<close> (chunk.ts)
  are not among the sources, and every theorem below holds for any three functions in their
  place. To evaluate the reducer on concrete inputs, this instance is the coarsest result
  the specification allows, its whole-region fallback: no chunk for equal documents, one
  chunk spanning both documents otherwise, recomputed on every update.
\<close>

definition wholeDocBuild :: "Text \<Rightarrow> Text \<Rightarrow> unit \<Rightarrow> Chunk list" where
  "wholeDocBuild a b cfg =
     (if a = b then []
      else [\<lparr>changes_of = [Change 0 (length a) 0 (length b)],
             fromA = 0, toA = length a + 1, endA = length a,
             fromB = 0, toB = length b + 1, endB = length b\<rparr>])"

definition wholeDocOps :: "unit ChunkOps" where
  "wholeDocOps =
     \<lparr>Chunk_build = wholeDocBuild,
      Chunk_updateA = (\<lambda>chunks a b cs cfg. wholeDocBuild a b cfg),
      Chunk_updateB = (\<lambda>chunks a b cs cfg. wholeDocBuild a b cfg)\<rparr>"

section \<open>Example states\<close>

text \<open>
  Small states on which the model is evaluated. Each chunk is line-aligned as the chunks of
  the merge view are: it starts at a line start and \<open>toA\<close>, \<open>toB\<close> are the start of the
  line after it, one past the end of the document when the chunk holds the last line.
\<close>

text \<open>A changed line in the middle: line 2 is \<open>b\<close> in A and \<open>X\<close> in B.\<close>

definition chMid :: Chunk where
  "chMid = \<lparr>changes_of = [Change 0 1 0 1],
            fromA = 2, toA = 4, endA = 3, fromB = 2, toB = 4, endB = 3\<rparr>"

definition stMid :: EditorState where
  "stMid = \<lparr>doc = ''a\<newline>X\<newline>c'', field_originalDoc = ''a\<newline>b\<newline>c'',
            field_ChunkField = [chMid]\<rparr>"

text \<open>A deleted line in the middle: line 2 of A is absent from B.\<close>

definition chDel :: Chunk where
  "chDel = \<lparr>changes_of = [Change 0 2 0 0],
            fromA = 2, toA = 4, endA = 3, fromB = 2, toB = 2, endB = 2\<rparr>"

definition stDel :: EditorState where
  "stDel = \<lparr>doc = ''a\<newline>c'', field_originalDoc = ''a\<newline>b\<newline>c'',
            field_ChunkField = [chDel]\<rparr>"

text \<open>An inserted line in the middle: line 2 of B is absent from A.\<close>

definition chIns :: Chunk where
  "chIns = \<lparr>changes_of = [Change 0 0 0 2],
            fromA = 2, toA = 2, endA = 2, fromB = 2, toB = 4, endB = 3\<rparr>"

definition stIns :: EditorState where
  "stIns = \<lparr>doc = ''a\<newline>b\<newline>c'', field_originalDoc = ''a\<newline>c'',
            field_ChunkField = [chIns]\<rparr>"

text \<open>A changed last line: \<open>toA\<close> and \<open>toB\<close> are one past the end of their documents.\<close>

definition chEnd :: Chunk where
  "chEnd = \<lparr>changes_of = [Change 0 1 0 1],
            fromA = 2, toA = 4, endA = 3, fromB = 2, toB = 4, endB = 3\<rparr>"

definition stEnd :: EditorState where
  "stEnd = \<lparr>doc = ''a\<newline>X'', field_originalDoc = ''a\<newline>b'',
            field_ChunkField = [chEnd]\<rparr>"

text \<open>Equal documents: no chunk.\<close>

definition stSame :: EditorState where
  "stSame = \<lparr>doc = ''a\<newline>b'', field_originalDoc = ''a\<newline>b'', field_ChunkField = []\<rparr>"

text \<open>The state that accepting the chunk of \<open>stMid\<close> leads to.\<close>

definition stMidAccepted :: EditorState where
  "stMidAccepted = \<lparr>doc = ''a\<newline>X\<newline>c'', field_originalDoc = ''a\<newline>X\<newline>c'',
                 field_ChunkField = []\<rparr>"
text \<open>
  The effect values and transaction specifications that \<open>acceptChunk\<close> and
  \<open>rejectChunk\<close> build on \<open>stMid\<close> and on \<open>stEnd\<close>.
\<close>

definition accEffMid :: AcceptValue where
  "accEffMid = \<lparr>chunkFromA = 2, chunkToA = 4, chunkFromB = 2, chunkToB = 4,
                 currentContent = ''X\<newline>'', changes = [Keep 2, Replace 2 ''X\<newline>'', Keep 1],
                 originalDoc = ''a\<newline>b\<newline>c''\<rparr>"

definition rejEffMid :: RejectValue where
  "rejEffMid = \<lparr>chunkFromA = 2, chunkToA = 4, chunkFromB = 2, chunkToB = 4,
                 currentContent = ''X'', changes = [Keep 2, Replace 2 ''b\<newline>'', Keep 1],
                 originalContent = ''b\<newline>''\<rparr>"

definition accEffEnd :: AcceptValue where
  "accEffEnd = \<lparr>chunkFromA = 2, chunkToA = 4, chunkFromB = 2, chunkToB = 4,
                 currentContent = ''X'', changes = [Keep 2, Replace 1 ''X''],
                 originalDoc = ''a\<newline>b''\<rparr>"

definition rejEffEnd :: RejectValue where
  "rejEffEnd = \<lparr>chunkFromA = 2, chunkToA = 4, chunkFromB = 2, chunkToB = 4,
                 currentContent = ''X'', changes = [Keep 2, Replace 1 ''b''],
                 originalContent = ''b''\<rparr>"

definition specEndAccept :: TransactionSpec where
  "specEndAccept = \<lparr>spec_changes = None, spec_effects = [AcceptChunkEffect accEffEnd],
                     spec_userEvent = ''accept''\<rparr>"

definition specEndReject :: TransactionSpec where
  "specEndReject = \<lparr>spec_changes = Some (Replacement 2 3 ''b''),
                     spec_effects = [RejectChunkEffect rejEffEnd],
                     spec_userEvent = ''revert''\<rparr>"

text \<open>
  The accept transaction on \<open>stMid\<close>, what the history records to undo it, and the
  transaction that undoes it.
\<close>

definition specAccMid :: TransactionSpec where
  "specAccMid = \<lparr>spec_changes = None, spec_effects = [AcceptChunkEffect accEffMid],
                  spec_userEvent = ''accept''\<rparr>"

definition trAccMid :: Transaction where
  "trAccMid = \<lparr>tr_startState = stMid, tr_changes = [Keep 5],
                tr_effects = [AcceptChunkEffect accEffMid], tr_userEvent = ''accept''\<rparr>"

definition specUndoMid :: TransactionSpec where
  "specUndoMid = \<lparr>spec_changes = Some (OfChangeSet [Keep 5]),
                   spec_effects = [UpdateOriginalDoc ''a\<newline>b\<newline>c''
                                     [Keep 2, Replace 2 ''b\<newline>'', Keep 1]],
                   spec_userEvent = ''undo''\<rparr>"

definition trUndoMid :: Transaction where
  "trUndoMid = \<lparr>tr_startState = stMidAccepted, tr_changes = [Keep 5],
                 tr_effects = [UpdateOriginalDoc ''a\<newline>b\<newline>c''
                                 [Keep 2, Replace 2 ''b\<newline>'', Keep 1]],
                 tr_userEvent = ''undo''\<rparr>"

text \<open>
  Generated code inserted at position 1 of \<open>stMid\<close> with \<open>replaceAll: false\<close>, and a
  typed character at the start of \<open>stSame\<close>.
\<close>

definition trGenInsert :: Transaction where
  "trGenInsert = \<lparr>tr_startState = stMid, tr_changes = [Keep 1, Replace 0 ''Z'', Keep 4],
                   tr_effects = [GenerateCodeEffect ''Z'' False (Some 1)],
                   tr_userEvent = ''generate.code''\<rparr>"

definition specType :: TransactionSpec where
  "specType = \<lparr>spec_changes = Some (Replacement 0 0 ''z''), spec_effects = [],
                spec_userEvent = ''input.type''\<rparr>"

definition trType :: Transaction where
  "trType = \<lparr>tr_startState = stSame, tr_changes = [Replace 0 ''z'', Keep 3],
              tr_effects = [], tr_userEvent = ''input.type''\<rparr>"

text \<open>
  Two changed lines, the second one the last line. With the coarse chunk operations,
  accepting or rejecting the first chunk leaves one chunk spanning both documents.
\<close>

definition chTwo1 :: Chunk where
  "chTwo1 = \<lparr>changes_of = [Change 0 1 0 1],
             fromA = 2, toA = 4, endA = 3, fromB = 2, toB = 4, endB = 3\<rparr>"

definition chTwo2 :: Chunk where
  "chTwo2 = \<lparr>changes_of = [Change 0 1 0 1],
             fromA = 6, toA = 8, endA = 7, fromB = 6, toB = 8, endB = 7\<rparr>"

definition stTwo :: EditorState where
  "stTwo = \<lparr>doc = ''a\<newline>X\<newline>c\<newline>Y'', field_originalDoc = ''a\<newline>b\<newline>c\<newline>d'',
            field_ChunkField = [chTwo1, chTwo2]\<rparr>"

definition chWhole7 :: Chunk where
  "chWhole7 = \<lparr>changes_of = [Change 0 7 0 7],
               fromA = 0, toA = 8, endA = 7, fromB = 0, toB = 8, endB = 7\<rparr>"

definition stTwoAccepted :: EditorState where
  "stTwoAccepted = \<lparr>doc = ''a\<newline>X\<newline>c\<newline>Y'', field_originalDoc = ''a\<newline>X\<newline>c\<newline>d'',
                    field_ChunkField = [chWhole7]\<rparr>"

definition stTwoRejected :: EditorState where
  "stTwoRejected = \<lparr>doc = ''a\<newline>b\<newline>c\<newline>Y'', field_originalDoc = ''a\<newline>b\<newline>c\<newline>d'',
                    field_ChunkField = [chWhole7]\<rparr>"

text \<open>
  A typed character at the start of \<open>stMid\<close>, whose chunk list is not empty, and the
  chunk that the coarse chunk operations return for it.
\<close>

definition trTypeMid :: Transaction where
  "trTypeMid = \<lparr>tr_startState = stMid, tr_changes = [Replace 0 ''z'', Keep 5],
                 tr_effects = [], tr_userEvent = ''input.type''\<rparr>"

definition chWholeTypeMid :: Chunk where
  "chWholeTypeMid = \<lparr>changes_of = [Change 0 5 0 6],
                     fromA = 0, toA = 6, endA = 5, fromB = 0, toB = 7, endB = 6\<rparr>"

text \<open>
  The reject transaction on \<open>stEnd\<close>, and the effect that the history records to undo it:
  it keeps \<open>chunkToB = 4\<close>, for a document of length 3 before and after the reject.
\<close>

definition trEndReject :: Transaction where
  "trEndReject = \<lparr>tr_startState = stEnd, tr_changes = [Keep 2, Replace 1 ''b''],
                   tr_effects = [RejectChunkEffect rejEffEnd], tr_userEvent = ''revert''\<rparr>"

definition rejEffEndUndo :: RejectValue where
  "rejEffEndUndo = \<lparr>chunkFromA = 2, chunkToA = 4, chunkFromB = 2, chunkToB = 4,
                     currentContent = ''b'', changes = [Keep 2, Replace 1 ''X''],
                     originalContent = ''X''\<rparr>"

section \<open>The edits as the specification words them\<close>

text \<open>
  The specification describes the edit of an accept as replacing \<open>[chunk.fromA, chunk.toA)\<close>
  in A with B's content for \<open>[chunk.fromB, chunk.toB)\<close>, with a line terminator appended
  when the chunk is not at the end of A, and the edit of a reject as its mirror image. These
  two definitions follow those words, to be compared with what the code builds. A chunk is
  taken to be not at the end of a document when its end is a position of the document.
\<close>

definition spec_acceptEdit :: "EditorState \<Rightarrow> Chunk \<Rightarrow> ChangeSpec" where
  "spec_acceptEdit state chunk =
     Replacement (fromA chunk) (toA chunk)
       (sliceDoc state (fromB chunk) (toB chunk) @
        (if toA chunk \<le> length (field_originalDoc state) then lineBreak else []))"

definition spec_rejectEdit :: "EditorState \<Rightarrow> Chunk \<Rightarrow> ChangeSpec" where
  "spec_rejectEdit state chunk =
     Replacement (fromB chunk) (toB chunk)
       (sliceString (field_originalDoc state) (fromA chunk) (toA chunk) @
        (if toB chunk \<le> length (doc state) then lineBreak else []))"

section \<open>Facts about change sets\<close>

lemma cs_length_keepAll: "cs_length (cs_keepAll n) = n"
  by (simp add: cs_length_def cs_keepAll_def)

lemma cs_empty_keepAll: "cs_empty (cs_keepAll n)"
  by (simp add: cs_keepAll_def)

lemma applySections_keepAll: "n = length d \<Longrightarrow> applySections (cs_keepAll n) d = d"
  by (simp add: cs_keepAll_def)

lemma cs_apply_keepAll: "cs_apply (cs_keepAll (length d)) d = Inr d"
  by (simp add: cs_apply_def cs_length_keepAll applySections_keepAll)

text \<open>
  A replacement with a valid range gives a change set of the document's length, and
  applying it puts the inserted text in the place of the range.
\<close>

lemma ChangeSet_of_Replacement_ok:
  assumes "frm \<le> to" "to \<le> n"
  shows "\<exists>cs. ChangeSet_of (Replacement frm to ins) n = Inr cs \<and> cs_length cs = n \<and>
           (\<forall>d. length d = n \<longrightarrow> applySections cs d = take frm d @ textOf ins @ drop to d)"
proof (cases "frm = to \<and> textOf ins = []")
  case True
  then show ?thesis using assms
    by (simp add: cs_length_keepAll applySections_keepAll)
next
  case False
  then show ?thesis using assms
    by (auto simp add: cs_length_def cs_keepAll_def)
qed

lemma ChangeSet_of_Replacement_valid:
  "ChangeSet_of (Replacement frm to ins) n = Inr cs \<Longrightarrow> frm \<le> to \<and> to \<le> n"
  by (auto split: if_splits)

text \<open>Mapping a position succeeds exactly for the positions of the old document.\<close>

lemma mapPosFrom_in_range:
  "posA \<le> pos \<Longrightarrow> pos \<le> posA + cs_length cs \<Longrightarrow> \<exists>p. mapPosFrom posA posB cs pos = Inr p"
proof (induction cs arbitrary: posA posB)
  case Nil
  then show ?case by (simp add: cs_length_def)
next
  case (Cons s cs)
  show ?case
  proof (cases s)
    case (Keep n)
    with Cons show ?thesis by (auto simp add: cs_length_def)
  next
    case (Replace n ins)
    with Cons show ?thesis by (auto simp add: cs_length_def)
  qed
qed

lemma mapPos_in_range: "pos \<le> cs_length cs \<Longrightarrow> \<exists>p. mapPos cs pos = Inr p"
  unfolding mapPos_def using mapPosFrom_in_range [of 0 pos cs 0] by simp

lemma mapPosFrom_out_of_range:
  "pos > posA + cs_length cs \<Longrightarrow> mapPosFrom posA posB cs pos = Inl RangeError"
proof (induction cs arbitrary: posA posB)
  case Nil
  then show ?case by (simp add: cs_length_def)
next
  case (Cons s cs)
  show ?case
  proof (cases s)
    case (Keep n)
    with Cons show ?thesis by (auto simp add: cs_length_def)
  next
    case (Replace n ins)
    with Cons show ?thesis by (auto simp add: cs_length_def)
  qed
qed

lemma mapPos_out_of_range: "pos > cs_length cs \<Longrightarrow> mapPos cs pos = Inl RangeError"
  unfolding mapPos_def using mapPosFrom_out_of_range [of 0 cs pos 0] by simp

text \<open>Inverting a change set undoes it, and inverting twice gives it back.\<close>

lemma length_applySections:
  "cs_length cs = length d \<Longrightarrow> length (applySections cs d) = cs_newLength cs"
proof (induction cs arbitrary: d)
  case Nil
  then show ?case by (simp add: cs_length_def cs_newLength_def)
next
  case (Cons s cs)
  show ?case
  proof (cases s)
    case (Keep n)
    with Cons.prems have "cs_length cs = length (drop n d)" "n \<le> length d"
      by (simp_all add: cs_length_def)
    with Cons.IH [of "drop n d"] Keep show ?thesis
      by (simp add: cs_newLength_def)
  next
    case (Replace n ins)
    with Cons.prems have "cs_length cs = length (drop n d)"
      by (simp add: cs_length_def)
    with Cons.IH [of "drop n d"] Replace show ?thesis
      by (simp add: cs_newLength_def)
  qed
qed

lemma cs_length_invert: "cs_length (cs_invert cs d) = cs_newLength cs"
proof (induction cs arbitrary: d)
  case Nil
  then show ?case by (simp add: cs_length_def cs_newLength_def)
next
  case (Cons s cs)
  from Cons.IH [of "drop (sectionLen s) d"] show ?case
    by (cases s) (simp_all add: cs_length_def cs_newLength_def)
qed

lemma applySections_invert:
  "cs_length cs = length d \<Longrightarrow> applySections (cs_invert cs d) (applySections cs d) = d"
proof (induction cs arbitrary: d)
  case Nil
  then show ?case by simp
next
  case (Cons s cs)
  show ?case
  proof (cases s)
    case (Keep n)
    with Cons.prems have "cs_length cs = length (drop n d)" "n \<le> length d"
      by (simp_all add: cs_length_def)
    with Cons.IH [of "drop n d"] Keep show ?thesis by simp
  next
    case (Replace n ins)
    with Cons.prems have "cs_length cs = length (drop n d)" "n \<le> length d"
      by (simp_all add: cs_length_def)
    with Cons.IH [of "drop n d"] Replace show ?thesis by simp
  qed
qed

lemma cs_invert_invert:
  "cs_length cs = length d \<Longrightarrow> cs_invert (cs_invert cs d) (applySections cs d) = cs"
proof (induction cs arbitrary: d)
  case Nil
  then show ?case by simp
next
  case (Cons s cs)
  show ?case
  proof (cases s)
    case (Keep n)
    with Cons.prems have "cs_length cs = length (drop n d)" "n \<le> length d"
      by (simp_all add: cs_length_def)
    with Cons.IH [of "drop n d"] Keep show ?thesis by simp
  next
    case (Replace n ins)
    with Cons.prems have "cs_length cs = length (drop n d)" "n \<le> length d"
      by (simp_all add: cs_length_def)
    with Cons.IH [of "drop n d"] Replace show ?thesis by simp
  qed
qed

lemma cs_invert_keepAll: "cs_invert (cs_keepAll n) d = cs_keepAll n"
  by (simp add: cs_keepAll_def)

section \<open>Facts about the transactions of accept and reject\<close>

lemma ChangeSet_of_Replacement_length:
  assumes "ChangeSet_of (Replacement frm to ins) n = Inr cs"
  shows "cs_length cs = n"
proof -
  have r: "frm \<le> to" "to \<le> n"
    using ChangeSet_of_Replacement_valid [OF assms] by simp_all
  from ChangeSet_of_Replacement_ok [OF r, of ins] assms show ?thesis by auto
qed

lemma computeChunks_accept_only:
  assumes "tr_effects tr = [AcceptChunkEffect v]"
      and "cs_apply (changes v) (field_originalDoc (tr_startState tr)) = Inr newA"
      and "tr_newDoc tr = Inr newDoc"
      and "\<not> tr_docChanged tr"
  shows "computeChunks ops diffConf chunks0 tr =
           Inr ([CallUpdateA],
                Chunk_updateA ops chunks0 newA (doc (tr_startState tr)) (changes v) diffConf)"
  using assms by (simp add: computeChunks_def tr_originalDoc_def)

lemma computeChunks_reject_only:
  assumes "tr_effects tr = [RejectChunkEffect v]"
      and "tr_newDoc tr = Inr newDoc"
  shows "computeChunks ops diffConf chunks0 tr =
           Inr ([CallUpdateB],
                Chunk_updateB ops chunks0 (field_originalDoc (tr_startState tr)) newDoc
                  (tr_changes tr) diffConf)"
  using assms by (simp add: computeChunks_def tr_originalDoc_def)

lemma accept_transaction:
  assumes "cs_length (changes v) = length (field_originalDoc view)"
  shows "\<exists>tr. state_update view
                \<lparr>spec_changes = None, spec_effects = [AcceptChunkEffect v], spec_userEvent = ev\<rparr> =
              Inr tr \<and>
            computeChunks ops diffConf (field_ChunkField view) tr =
              Inr ([CallUpdateA],
                   Chunk_updateA ops (field_ChunkField view)
                     (applySections (changes v) (field_originalDoc view)) (doc view) (changes v)
                     diffConf) \<and>
            tr_state ops diffConf tr =
              Inr \<lparr>doc = doc view,
                   field_originalDoc = applySections (changes v) (field_originalDoc view),
                   field_ChunkField =
                     Chunk_updateA ops (field_ChunkField view)
                       (applySections (changes v) (field_originalDoc view)) (doc view)
                       (changes v) diffConf\<rparr>"
proof -
  let ?tr = "\<lparr>tr_startState = view, tr_changes = cs_keepAll (length (doc view)),
              tr_effects = [AcceptChunkEffect v], tr_userEvent = ev\<rparr>"
  have su: "state_update view
              \<lparr>spec_changes = None, spec_effects = [AcceptChunkEffect v], spec_userEvent = ev\<rparr> =
            Inr ?tr"
    by (simp add: state_update_def)
  have nd: "tr_newDoc ?tr = Inr (doc view)"
    by (simp add: tr_newDoc_def cs_apply_keepAll)
  have ap: "cs_apply (changes v) (field_originalDoc (tr_startState ?tr)) =
              Inr (applySections (changes v) (field_originalDoc view))"
    using assms by (simp add: cs_apply_def)
  have od: "tr_originalDoc ?tr = Inr (applySections (changes v) (field_originalDoc view))"
    using assms by (simp add: tr_originalDoc_def cs_apply_def)
  have cc: "computeChunks ops diffConf (field_ChunkField view) ?tr =
              Inr ([CallUpdateA],
                   Chunk_updateA ops (field_ChunkField view)
                     (applySections (changes v) (field_originalDoc view)) (doc view) (changes v)
                     diffConf)"
    using computeChunks_accept_only [of ?tr v _ "doc view" ops diffConf "field_ChunkField view", OF _ ap nd]
    by (simp add: tr_docChanged_def cs_empty_keepAll)
  have ts: "tr_state ops diffConf ?tr =
              Inr \<lparr>doc = doc view,
                   field_originalDoc = applySections (changes v) (field_originalDoc view),
                   field_ChunkField =
                     Chunk_updateA ops (field_ChunkField view)
                       (applySections (changes v) (field_originalDoc view)) (doc view)
                       (changes v) diffConf\<rparr>"
    by (simp add: tr_state_def nd od cc)
  show ?thesis by (rule exI [of _ ?tr]) (simp only: su cc ts simp_thms)
qed

lemma reject_transaction:
  assumes "ChangeSet_of chg (length (doc view)) = Inr cs"
      and "cs_length cs = length (doc view)"
  shows "\<exists>tr. state_update view
                \<lparr>spec_changes = Some chg, spec_effects = [RejectChunkEffect v], spec_userEvent = ev\<rparr> =
              Inr tr \<and>
            computeChunks ops diffConf (field_ChunkField view) tr =
              Inr ([CallUpdateB],
                   Chunk_updateB ops (field_ChunkField view) (field_originalDoc view)
                     (applySections cs (doc view)) cs diffConf) \<and>
            tr_state ops diffConf tr =
              Inr \<lparr>doc = applySections cs (doc view),
                   field_originalDoc = field_originalDoc view,
                   field_ChunkField =
                     Chunk_updateB ops (field_ChunkField view) (field_originalDoc view)
                       (applySections cs (doc view)) cs diffConf\<rparr>"
proof -
  let ?tr = "\<lparr>tr_startState = view, tr_changes = cs,
              tr_effects = [RejectChunkEffect v], tr_userEvent = ev\<rparr>"
  have su: "state_update view
              \<lparr>spec_changes = Some chg, spec_effects = [RejectChunkEffect v], spec_userEvent = ev\<rparr> =
            Inr ?tr"
    using assms by (simp add: state_update_def)
  have nd: "tr_newDoc ?tr = Inr (applySections cs (doc view))"
    using assms by (simp add: tr_newDoc_def cs_apply_def)
  have od: "tr_originalDoc ?tr = Inr (field_originalDoc view)"
    by (simp add: tr_originalDoc_def)
  have cc: "computeChunks ops diffConf (field_ChunkField view) ?tr =
              Inr ([CallUpdateB],
                   Chunk_updateB ops (field_ChunkField view) (field_originalDoc view)
                     (applySections cs (doc view)) cs diffConf)"
    using computeChunks_reject_only [of ?tr v "applySections cs (doc view)" ops diffConf "field_ChunkField view", OF _ nd]
    by simp
  have ts: "tr_state ops diffConf ?tr =
              Inr \<lparr>doc = applySections cs (doc view),
                   field_originalDoc = field_originalDoc view,
                   field_ChunkField =
                     Chunk_updateB ops (field_ChunkField view) (field_originalDoc view)
                       (applySections cs (doc view)) cs diffConf\<rparr>"
    by (simp add: tr_state_def nd od cc)
  show ?thesis by (rule exI [of _ ?tr]) (simp only: su cc ts simp_thms)
qed

lemma dispatch_accept:
  assumes "cs_length cs = length (field_originalDoc view)"
      and "changes v = cs"
  shows "dispatch ops diffConf view
           \<lparr>spec_changes = None, spec_effects = [AcceptChunkEffect v], spec_userEvent = ev\<rparr> =
         Inr \<lparr>doc = doc view,
              field_originalDoc = applySections cs (field_originalDoc view),
              field_ChunkField =
                Chunk_updateA ops (field_ChunkField view)
                  (applySections cs (field_originalDoc view)) (doc view) cs diffConf\<rparr>"
proof -
  let ?tr = "\<lparr>tr_startState = view, tr_changes = cs_keepAll (length (doc view)),
              tr_effects = [AcceptChunkEffect v], tr_userEvent = ev\<rparr>"
  have nd: "tr_newDoc ?tr = Inr (doc view)"
    by (simp add: tr_newDoc_def cs_apply_keepAll)
  have ap: "cs_apply (changes v) (field_originalDoc (tr_startState ?tr)) =
              Inr (applySections cs (field_originalDoc view))"
    using assms by (simp add: cs_apply_def)
  have od: "tr_originalDoc ?tr = Inr (applySections cs (field_originalDoc view))"
    using assms by (simp add: tr_originalDoc_def cs_apply_def)
  have cc: "computeChunks ops diffConf (field_ChunkField view) ?tr =
              Inr ([CallUpdateA],
                   Chunk_updateA ops (field_ChunkField view)
                     (applySections cs (field_originalDoc view)) (doc view) cs diffConf)"
    using computeChunks_accept_only [of ?tr v _ "doc view" ops diffConf "field_ChunkField view", OF _ ap nd]
      assms by (simp add: tr_docChanged_def cs_empty_keepAll)
  show ?thesis
    by (simp add: dispatch_def state_update_def tr_state_def nd od cc)
qed

lemma dispatch_reject:
  assumes "ChangeSet_of chg (length (doc view)) = Inr cs"
      and "cs_length cs = length (doc view)"
  shows "dispatch ops diffConf view
           \<lparr>spec_changes = Some chg, spec_effects = [RejectChunkEffect v], spec_userEvent = ev\<rparr> =
         Inr \<lparr>doc = applySections cs (doc view),
              field_originalDoc = field_originalDoc view,
              field_ChunkField =
                Chunk_updateB ops (field_ChunkField view) (field_originalDoc view)
                  (applySections cs (doc view)) cs diffConf\<rparr>"
proof -
  let ?tr = "\<lparr>tr_startState = view, tr_changes = cs,
              tr_effects = [RejectChunkEffect v], tr_userEvent = ev\<rparr>"
  have nd: "tr_newDoc ?tr = Inr (applySections cs (doc view))"
    using assms by (simp add: tr_newDoc_def cs_apply_def)
  have od: "tr_originalDoc ?tr = Inr (field_originalDoc view)"
    by (simp add: tr_originalDoc_def)
  have cc: "computeChunks ops diffConf (field_ChunkField view) ?tr =
              Inr ([CallUpdateB],
                   Chunk_updateB ops (field_ChunkField view) (field_originalDoc view)
                     (applySections cs (doc view)) cs diffConf)"
    using computeChunks_reject_only [of ?tr v "applySections cs (doc view)" ops diffConf "field_ChunkField view", OF _ nd]
    by simp
  show ?thesis
    using assms by (simp add: dispatch_def state_update_def tr_state_def nd od cc)
qed

lemma acceptChunk_spec_SomeD:
  assumes "acceptChunk_spec view at = Inr (Some spec)"
  shows "\<exists>chunk v.
           find (\<lambda>ch. fromB ch \<le> at \<and> endB ch \<ge> at) (field_ChunkField view) = Some chunk \<and>
           spec = \<lparr>spec_changes = None, spec_effects = [AcceptChunkEffect v],
                   spec_userEvent = ''accept''\<rparr> \<and>
           ChangeSet_of
             (Replacement (fromA chunk) (min (length (field_originalDoc view)) (toA chunk))
                (currentContent v))
             (length (field_originalDoc view)) = Inr (changes v) \<and>
           currentContent v =
             (if fromB chunk \<noteq> toB chunk \<and> toA chunk \<le> length (field_originalDoc view)
              then sliceDoc view (fromB chunk) (max (fromB chunk) (toB chunk - 1)) @ lineBreak
              else sliceDoc view (fromB chunk) (max (fromB chunk) (toB chunk - 1))) \<and>
           originalDoc v = field_originalDoc view \<and>
           chunkFromA v = fromA chunk \<and> chunkToA v = toA chunk \<and>
           chunkFromB v = fromB chunk \<and> chunkToB v = toB chunk"
proof (cases "find (\<lambda>ch. fromB ch \<le> at \<and> endB ch \<ge> at) (field_ChunkField view)")
  case None
  with assms show ?thesis by (simp add: acceptChunk_spec_def)
next
  case (Some chunk)
  let ?ins = "(if fromB chunk \<noteq> toB chunk \<and> toA chunk \<le> length (field_originalDoc view)
              then sliceDoc view (fromB chunk) (max (fromB chunk) (toB chunk - 1)) @ lineBreak
              else sliceDoc view (fromB chunk) (max (fromB chunk) (toB chunk - 1)))"
  let ?chg = "Replacement (fromA chunk) (min (length (field_originalDoc view)) (toA chunk)) ?ins"
  have eq: "acceptChunk_spec view at =
          (case ChangeSet_of ?chg (length (field_originalDoc view)) of
             Inl e \<Rightarrow> Inl e
           | Inr cs \<Rightarrow> Inr (Some \<lparr>spec_changes = None,
                     spec_effects = [AcceptChunkEffect
                       \<lparr>chunkFromA = fromA chunk, chunkToA = toA chunk,
                        chunkFromB = fromB chunk, chunkToB = toB chunk,
                        currentContent = ?ins, changes = cs,
                        originalDoc = field_originalDoc view\<rparr>],
                     spec_userEvent = ''accept''\<rparr>))"
    unfolding acceptChunk_spec_def Let_def Some by (simp only: option.case)
  show ?thesis
  proof (cases "ChangeSet_of ?chg (length (field_originalDoc view))")
    case (Inl e)
    with eq assms show ?thesis by (simp only: sum.case) simp
  next
    case (Inr cs)
    with eq assms have sp: "spec = \<lparr>spec_changes = None,
                     spec_effects = [AcceptChunkEffect
                       \<lparr>chunkFromA = fromA chunk, chunkToA = toA chunk,
                        chunkFromB = fromB chunk, chunkToB = toB chunk,
                        currentContent = ?ins, changes = cs,
                        originalDoc = field_originalDoc view\<rparr>],
                     spec_userEvent = ''accept''\<rparr>"
      by (simp only: sum.case) simp
    show ?thesis
      apply (rule exI [of _ chunk])
      apply (rule exI [of _ "\<lparr>chunkFromA = fromA chunk, chunkToA = toA chunk,
                        chunkFromB = fromB chunk, chunkToB = toB chunk,
                        currentContent = ?ins, changes = cs,
                        originalDoc = field_originalDoc view\<rparr>"])
      using Some sp Inr by (simp del: ChangeSet_of.simps)
  qed
qed

lemma rejectChunk_spec_SomeD:
  assumes "rejectChunk_spec view at = Inr (Some spec)"
  shows "\<exists>chunk v.
           find (\<lambda>ch. fromB ch \<le> at \<and> endB ch \<ge> at) (field_ChunkField view) = Some chunk \<and>
           spec = \<lparr>spec_changes =
                     Some (Replacement (fromB chunk) (min (length (doc view)) (toB chunk))
                             (originalContent v)),
                   spec_effects = [RejectChunkEffect v], spec_userEvent = ''revert''\<rparr> \<and>
           ChangeSet_of
             (Replacement (fromB chunk) (min (length (doc view)) (toB chunk)) (originalContent v))
             (length (doc view)) = Inr (changes v) \<and>
           originalContent v =
             (if fromA chunk \<noteq> toA chunk \<and> toB chunk \<le> length (doc view)
              then sliceString (field_originalDoc view) (fromA chunk)
                     (max (fromA chunk) (toA chunk - 1)) @ lineBreak
              else sliceString (field_originalDoc view) (fromA chunk)
                     (max (fromA chunk) (toA chunk - 1))) \<and>
           currentContent v = sliceDoc view (fromB chunk) (max (fromB chunk) (toB chunk - 1)) \<and>
           chunkFromA v = fromA chunk \<and> chunkToA v = toA chunk \<and>
           chunkFromB v = fromB chunk \<and> chunkToB v = toB chunk"
proof (cases "find (\<lambda>ch. fromB ch \<le> at \<and> endB ch \<ge> at) (field_ChunkField view)")
  case None
  with assms show ?thesis by (simp add: rejectChunk_spec_def)
next
  case (Some chunk)
  let ?ins = "(if fromA chunk \<noteq> toA chunk \<and> toB chunk \<le> length (doc view)
              then sliceString (field_originalDoc view) (fromA chunk)
                     (max (fromA chunk) (toA chunk - 1)) @ lineBreak
              else sliceString (field_originalDoc view) (fromA chunk)
                     (max (fromA chunk) (toA chunk - 1)))"
  let ?chg = "Replacement (fromB chunk) (min (length (doc view)) (toB chunk)) ?ins"
  let ?v = "\<lambda>cs. \<lparr>chunkFromA = fromA chunk, chunkToA = toA chunk,
                        chunkFromB = fromB chunk, chunkToB = toB chunk,
                        currentContent = sliceDoc view (fromB chunk) (max (fromB chunk) (toB chunk - 1)),
                        changes = cs, originalContent = ?ins\<rparr>"
  have eq: "rejectChunk_spec view at =
          (case ChangeSet_of ?chg (length (doc view)) of
             Inl e \<Rightarrow> Inl e
           | Inr cs \<Rightarrow> Inr (Some \<lparr>spec_changes = Some ?chg,
                     spec_effects = [RejectChunkEffect (?v cs)],
                     spec_userEvent = ''revert''\<rparr>))"
    unfolding rejectChunk_spec_def Let_def Some by (simp only: option.case)
  show ?thesis
  proof (cases "ChangeSet_of ?chg (length (doc view))")
    case (Inl e)
    with eq assms show ?thesis by (simp only: sum.case) simp
  next
    case (Inr cs)
    with eq assms have sp: "spec = \<lparr>spec_changes = Some ?chg,
                     spec_effects = [RejectChunkEffect (?v cs)],
                     spec_userEvent = ''revert''\<rparr>"
      by (simp only: sum.case) simp
    show ?thesis
      apply (rule exI [of _ chunk])
      apply (rule exI [of _ "?v cs"])
      using Some sp Inr by (simp del: ChangeSet_of.simps)
  qed
qed

text \<open>
  A chunk whose range does not start inside the target document, or ends before it starts,
  makes \<open>ChangeSet.of\<close> raise: nothing is dispatched.
\<close>

lemma acceptChunk_invalid_range:
  assumes "find (\<lambda>ch. fromB ch \<le> at \<and> endB ch \<ge> at) (field_ChunkField view) = Some chunk"
      and "fromA chunk > toA chunk \<or> fromA chunk > length (field_originalDoc view)"
  shows "acceptChunk ops diffConf view at = Inl RangeError"
  using assms by (auto simp add: acceptChunk_def acceptChunk_spec_def Let_def)

lemma rejectChunk_invalid_range:
  assumes "find (\<lambda>ch. fromB ch \<le> at \<and> endB ch \<ge> at) (field_ChunkField view) = Some chunk"
      and "fromB chunk > toB chunk \<or> fromB chunk > length (doc view)"
  shows "rejectChunk ops diffConf view at = Inl RangeError"
  using assms by (auto simp add: rejectChunk_def rejectChunk_spec_def Let_def)

text \<open>
  A chunk whose range starts inside the target document and does not end before it starts is
  resolved, wherever it ends: the end of the edit is clamped to the document.
\<close>

lemma acceptChunk_valid_range:
  assumes cover: "find (\<lambda>ch. fromB ch \<le> at \<and> endB ch \<ge> at) (field_ChunkField view) = Some chunk"
      and valid: "fromA chunk \<le> toA chunk \<and> fromA chunk \<le> length (field_originalDoc view)"
  shows "let orig = field_originalDoc view;
             to = min (length orig) (toA chunk);
             ins = (if fromB chunk \<noteq> toB chunk \<and> toA chunk \<le> length orig
                    then sliceDoc view (fromB chunk) (max (fromB chunk) (toB chunk - 1)) @ lineBreak
                    else sliceDoc view (fromB chunk) (max (fromB chunk) (toB chunk - 1)));
             newA = take (fromA chunk) orig @ textOf ins @ drop to orig
         in fromA chunk \<le> to \<and> to \<le> length orig \<and>
            (\<exists>cs. ChangeSet_of (Replacement (fromA chunk) to ins) (length orig) = Inr cs \<and>
                  acceptChunk_spec view at =
                    Inr (Some \<lparr>spec_changes = None,
                       spec_effects = [AcceptChunkEffect
                         \<lparr>chunkFromA = fromA chunk, chunkToA = toA chunk,
                          chunkFromB = fromB chunk, chunkToB = toB chunk,
                          currentContent = ins, changes = cs, originalDoc = orig\<rparr>],
                       spec_userEvent = ''accept''\<rparr>) \<and>
                  cs_apply cs orig = Inr newA \<and>
                  acceptChunk ops diffConf view at =
                    Inr (True, \<lparr>doc = doc view, field_originalDoc = newA,
                                field_ChunkField =
                                  Chunk_updateA ops (field_ChunkField view) newA (doc view) cs
                                    diffConf\<rparr>))"
proof -
  define orig where "orig = field_originalDoc view"
  define to where "to = min (length orig) (toA chunk)"
  define ins where "ins = (if fromB chunk \<noteq> toB chunk \<and> toA chunk \<le> length orig
                    then sliceDoc view (fromB chunk) (max (fromB chunk) (toB chunk - 1)) @ lineBreak
                    else sliceDoc view (fromB chunk) (max (fromB chunk) (toB chunk - 1)))"
  have r: "fromA chunk \<le> to" "to \<le> length orig"
    using valid by (simp_all add: to_def orig_def)
  obtain cs where cs: "ChangeSet_of (Replacement (fromA chunk) to ins) (length orig) = Inr cs"
      and len: "cs_length cs = length orig"
      and app: "applySections cs orig = take (fromA chunk) orig @ textOf ins @ drop to orig"
    using ChangeSet_of_Replacement_ok [OF r, of ins] by auto
  have sp: "acceptChunk_spec view at =
          Inr (Some \<lparr>spec_changes = None,
                     spec_effects = [AcceptChunkEffect
                       \<lparr>chunkFromA = fromA chunk, chunkToA = toA chunk,
                        chunkFromB = fromB chunk, chunkToB = toB chunk,
                        currentContent = ins, changes = cs, originalDoc = orig\<rparr>],
                     spec_userEvent = ''accept''\<rparr>)"
    unfolding acceptChunk_spec_def Let_def cover
    using cs unfolding ins_def to_def orig_def
    by (simp only: option.case sum.case)
  have acc: "acceptChunk ops diffConf view at =
                   Inr (True, \<lparr>doc = doc view, field_originalDoc = applySections cs orig,
                               field_ChunkField =
                                 Chunk_updateA ops (field_ChunkField view) (applySections cs orig) (doc view) cs
                                   diffConf\<rparr>)"
    unfolding acceptChunk_def sp
    using dispatch_accept [of cs view _ ops diffConf] len
    by (simp add: orig_def)
  have ap: "cs_apply cs orig = Inr (applySections cs orig)"
    using len by (simp add: cs_apply_def)
  show ?thesis
    using r cs sp acc ap app
    unfolding Let_def orig_def [symmetric] to_def [symmetric] ins_def [symmetric]
    by (simp del: ChangeSet_of.simps)
qed

lemma rejectChunk_valid_range:
  assumes cover: "find (\<lambda>ch. fromB ch \<le> at \<and> endB ch \<ge> at) (field_ChunkField view) = Some chunk"
      and valid: "fromB chunk \<le> toB chunk \<and> fromB chunk \<le> length (doc view)"
  shows "let orig = field_originalDoc view;
             to = min (length (doc view)) (toB chunk);
             ins = (if fromA chunk \<noteq> toA chunk \<and> toB chunk \<le> length (doc view)
                    then sliceString orig (fromA chunk) (max (fromA chunk) (toA chunk - 1)) @ lineBreak
                    else sliceString orig (fromA chunk) (max (fromA chunk) (toA chunk - 1)));
             newB = take (fromB chunk) (doc view) @ textOf ins @ drop to (doc view)
         in fromB chunk \<le> to \<and> to \<le> length (doc view) \<and>
            (\<exists>cs. ChangeSet_of (Replacement (fromB chunk) to ins) (length (doc view)) = Inr cs \<and>
                  rejectChunk_spec view at =
                    Inr (Some \<lparr>spec_changes = Some (Replacement (fromB chunk) to ins),
                       spec_effects = [RejectChunkEffect
                         \<lparr>chunkFromA = fromA chunk, chunkToA = toA chunk,
                          chunkFromB = fromB chunk, chunkToB = toB chunk,
                          currentContent =
                            sliceDoc view (fromB chunk) (max (fromB chunk) (toB chunk - 1)),
                          changes = cs, originalContent = ins\<rparr>],
                       spec_userEvent = ''revert''\<rparr>) \<and>
                  cs_apply cs (doc view) = Inr newB \<and>
                  rejectChunk ops diffConf view at =
                    Inr (True, \<lparr>doc = newB, field_originalDoc = orig,
                                field_ChunkField =
                                  Chunk_updateB ops (field_ChunkField view) orig newB cs
                                    diffConf\<rparr>))"
proof -
  define orig where "orig = field_originalDoc view"
  define to where "to = min (length (doc view)) (toB chunk)"
  define ins where "ins = (if fromA chunk \<noteq> toA chunk \<and> toB chunk \<le> length (doc view)
                    then sliceString orig (fromA chunk) (max (fromA chunk) (toA chunk - 1)) @ lineBreak
                    else sliceString orig (fromA chunk) (max (fromA chunk) (toA chunk - 1)))"
  have r: "fromB chunk \<le> to" "to \<le> length (doc view)"
    using valid by (simp_all add: to_def)
  obtain cs where cs: "ChangeSet_of (Replacement (fromB chunk) to ins) (length (doc view)) = Inr cs"
      and len: "cs_length cs = length (doc view)"
      and app: "applySections cs (doc view) = take (fromB chunk) (doc view) @ textOf ins @ drop to (doc view)"
    using ChangeSet_of_Replacement_ok [OF r, of ins] by auto
  have sp: "rejectChunk_spec view at =
          Inr (Some \<lparr>spec_changes = Some (Replacement (fromB chunk) to ins),
                     spec_effects = [RejectChunkEffect
                       \<lparr>chunkFromA = fromA chunk, chunkToA = toA chunk,
                        chunkFromB = fromB chunk, chunkToB = toB chunk,
                        currentContent = sliceDoc view (fromB chunk) (max (fromB chunk) (toB chunk - 1)),
                        changes = cs, originalContent = ins\<rparr>],
                     spec_userEvent = ''revert''\<rparr>)"
    unfolding rejectChunk_spec_def Let_def cover
    using cs unfolding ins_def to_def orig_def
    by (simp only: option.case sum.case)
  have rej: "rejectChunk ops diffConf view at =
                   Inr (True, \<lparr>doc = applySections cs (doc view), field_originalDoc = orig,
                               field_ChunkField =
                                 Chunk_updateB ops (field_ChunkField view) orig (applySections cs (doc view)) cs
                                   diffConf\<rparr>)"
    unfolding rejectChunk_def sp
    using dispatch_reject [OF cs len, of ops diffConf]
    by (simp add: orig_def)
  have ap: "cs_apply cs (doc view) = Inr (applySections cs (doc view))"
    using len by (simp add: cs_apply_def)
  show ?thesis
    using r cs sp rej ap app
    unfolding Let_def orig_def [symmetric] to_def [symmetric] ins_def [symmetric]
    by (simp del: ChangeSet_of.simps)
qed

lemma acceptChunk_spec_invalid_range:
  assumes "find (\<lambda>ch. fromB ch \<le> at \<and> endB ch \<ge> at) (field_ChunkField view) = Some chunk"
      and "\<not> (fromA chunk \<le> toA chunk \<and> fromA chunk \<le> length (field_originalDoc view))"
  shows "acceptChunk_spec view at = Inl RangeError"
  using assms by (auto simp add: acceptChunk_spec_def Let_def)

lemma rejectChunk_spec_invalid_range:
  assumes "find (\<lambda>ch. fromB ch \<le> at \<and> endB ch \<ge> at) (field_ChunkField view) = Some chunk"
      and "\<not> (fromB chunk \<le> toB chunk \<and> fromB chunk \<le> length (doc view))"
  shows "rejectChunk_spec view at = Inl RangeError"
  using assms by (auto simp add: rejectChunk_spec_def Let_def)

section \<open>Facts about undoing accept and reject\<close>

text \<open>
  What the history records for an accept or a reject, dispatched on the state after it,
  gives back both documents, whatever the chunk operations are. For a reject the undo
  transaction inverts to the effect of the reject itself. For an accept it inverts to no
  effect at all.
\<close>

lemma accept_undo_restores_documents:
  assumes sp: "acceptChunk_spec view at = Inr (Some spec)"
      and su: "state_update view spec = Inr tr"
      and ts: "tr_state ops diffConf tr = Inr view1"
  shows "\<exists>undo tr' view2.
           history_event tr = Some undo \<and>
           state_update view1 undo = Inr tr' \<and>
           tr_state ops diffConf tr' = Inr view2 \<and>
           doc view2 = doc view \<and> field_originalDoc view2 = field_originalDoc view \<and>
           undoableChunkOperations tr' = []"
proof -
  from acceptChunk_spec_SomeD [OF sp] obtain chunk :: Chunk and v :: AcceptValue where
    spec: "spec = \<lparr>spec_changes = None, spec_effects = [AcceptChunkEffect v],
                   spec_userEvent = ''accept''\<rparr>"
    and cs: "ChangeSet_of
             (Replacement (fromA chunk) (min (length (field_originalDoc view)) (toA chunk))
                (currentContent v))
             (length (field_originalDoc view)) = Inr (changes v)"
    and od: "originalDoc v = field_originalDoc view"
    by blast
  have len: "cs_length (changes v) = length (field_originalDoc view)"
    using ChangeSet_of_Replacement_length [OF cs] .
  let ?tr = "\<lparr>tr_startState = view, tr_changes = cs_keepAll (length (doc view)),
              tr_effects = [AcceptChunkEffect v], tr_userEvent = ''accept''\<rparr>"
  have tr: "tr = ?tr" using su by (simp add: spec state_update_def)
  from accept_transaction [OF len, of "''accept''" ops diffConf] su ts
  have d1: "doc view1 = doc view"
    by (auto simp add: spec)
  let ?inv = "cs_invert (changes v) (field_originalDoc view)"
  let ?undo = "\<lparr>spec_changes = Some (OfChangeSet (cs_keepAll (length (doc view)))),
                 spec_effects = [UpdateOriginalDoc (field_originalDoc view) ?inv],
                 spec_userEvent = ''undo''\<rparr>"
  have he: "history_event tr = Some ?undo"
    by (simp add: tr history_event_def undoableChunkOperations_def od cs_invert_keepAll Let_def)
  let ?tr' = "\<lparr>tr_startState = view1, tr_changes = cs_keepAll (length (doc view)),
               tr_effects = [UpdateOriginalDoc (field_originalDoc view) ?inv],
               tr_userEvent = ''undo''\<rparr>"
  have su': "state_update view1 ?undo = Inr ?tr'"
    by (simp add: state_update_def d1 cs_length_keepAll)
  have nd: "tr_newDoc ?tr' = Inr (doc view)"
    using cs_apply_keepAll [of "doc view"] by (simp add: tr_newDoc_def d1)
  have oo: "tr_originalDoc ?tr' = Inr (field_originalDoc view)"
    by (simp add: tr_originalDoc_def)
  have cc: "\<exists>r. computeChunks ops diffConf (field_ChunkField view1) ?tr' = Inr r"
    by (simp add: computeChunks_def nd oo Let_def)
  then obtain r where r: "computeChunks ops diffConf (field_ChunkField view1) ?tr' = Inr r" ..
  have ts': "tr_state ops diffConf ?tr' =
               Inr \<lparr>doc = doc view, field_originalDoc = field_originalDoc view,
                    field_ChunkField = snd r\<rparr>"
    by (simp add: tr_state_def nd oo r)
  have uo: "undoableChunkOperations ?tr' = []"
    by (simp add: undoableChunkOperations_def)
  show ?thesis
    apply (rule exI [of _ ?undo])
    apply (rule exI [of _ ?tr'])
    apply (rule exI [of _ "\<lparr>doc = doc view, field_originalDoc = field_originalDoc view,
                    field_ChunkField = snd r\<rparr>"])
    using he su' ts' uo by simp
qed

lemma reject_undo_restores_documents:
  assumes sp: "rejectChunk_spec view at = Inr (Some spec)"
      and su: "state_update view spec = Inr tr"
      and ts: "tr_state ops diffConf tr = Inr view1"
  shows "\<exists>undo tr' view2.
           history_event tr = Some undo \<and>
           state_update view1 undo = Inr tr' \<and>
           tr_state ops diffConf tr' = Inr view2 \<and>
           doc view2 = doc view \<and> field_originalDoc view2 = field_originalDoc view \<and>
           undoableChunkOperations tr' = tr_effects tr"
proof -
  from rejectChunk_spec_SomeD [OF sp] obtain chunk :: Chunk and v :: RejectValue where
    spec: "spec = \<lparr>spec_changes =
                     Some (Replacement (fromB chunk) (min (length (doc view)) (toB chunk))
                             (originalContent v)),
                   spec_effects = [RejectChunkEffect v], spec_userEvent = ''revert''\<rparr>"
    and cs: "ChangeSet_of
             (Replacement (fromB chunk) (min (length (doc view)) (toB chunk)) (originalContent v))
             (length (doc view)) = Inr (changes v)"
    by blast
  have len: "cs_length (changes v) = length (doc view)"
    using ChangeSet_of_Replacement_length [OF cs] .
  let ?cs = "changes v"
  let ?tr = "\<lparr>tr_startState = view, tr_changes = ?cs,
              tr_effects = [RejectChunkEffect v], tr_userEvent = ''revert''\<rparr>"
  have tr: "tr = ?tr" using su cs by (simp add: spec state_update_def)
  from reject_transaction [OF cs len, of v "''revert''" ops diffConf] su ts
  have d1: "doc view1 = applySections ?cs (doc view)"
    and o1: "field_originalDoc view1 = field_originalDoc view"
    by (auto simp add: spec)
  let ?inv = "cs_invert ?cs (doc view)"
  let ?w = "\<lparr>chunkFromA = chunkFromA v, chunkToA = chunkToA v,
         chunkFromB = chunkFromB v, chunkToB = chunkToB v,
         currentContent = originalContent v,
         changes = ?inv,
         originalContent = currentContent v\<rparr>"
  let ?undo = "\<lparr>spec_changes = Some (OfChangeSet ?inv),
                 spec_effects = [RejectChunkEffect ?w],
                 spec_userEvent = ''undo''\<rparr>"
  have he: "history_event tr = Some ?undo"
    by (simp add: tr history_event_def undoableChunkOperations_def Let_def)
  have il: "cs_length ?inv = length (doc view1)"
    using len by (simp add: cs_length_invert length_applySections d1)
  let ?tr' = "\<lparr>tr_startState = view1, tr_changes = ?inv,
               tr_effects = [RejectChunkEffect ?w], tr_userEvent = ''undo''\<rparr>"
  have su': "state_update view1 ?undo = Inr ?tr'"
    using il by (simp add: state_update_def)
  have nd: "tr_newDoc ?tr' = Inr (doc view)"
    using il applySections_invert [OF len] by (simp add: tr_newDoc_def cs_apply_def d1)
  have oo: "tr_originalDoc ?tr' = Inr (field_originalDoc view)"
    by (simp add: tr_originalDoc_def o1)
  have cc: "\<exists>r. computeChunks ops diffConf (field_ChunkField view1) ?tr' = Inr r"
    by (simp add: computeChunks_def nd oo Let_def)
  then obtain r where r: "computeChunks ops diffConf (field_ChunkField view1) ?tr' = Inr r" ..
  have ts': "tr_state ops diffConf ?tr' =
               Inr \<lparr>doc = doc view, field_originalDoc = field_originalDoc view,
                    field_ChunkField = snd r\<rparr>"
    by (simp add: tr_state_def nd oo r)
  have uo: "undoableChunkOperations ?tr' = tr_effects tr"
    using cs_invert_invert [OF len] by (simp add: undoableChunkOperations_def tr d1)
  show ?thesis
    apply (rule exI [of _ ?undo])
    apply (rule exI [of _ ?tr'])
    apply (rule exI [of _ "\<lparr>doc = doc view, field_originalDoc = field_originalDoc view,
                    field_ChunkField = snd r\<rparr>"])
    using he su' ts' uo by simp
qed

text \<open>The first effect of a type that \<open>find\<close> returns is of that type.\<close>

lemma find_updateOriginalDoc_Some:
  "find is_updateOriginalDoc es = Some e \<Longrightarrow> \<exists>d cs. e = UpdateOriginalDoc d cs"
proof -
  assume "find is_updateOriginalDoc es = Some e"
  then have "is_updateOriginalDoc e" by (auto simp add: find_Some_iff)
  then show ?thesis by (cases e) simp_all
qed

lemma find_acceptChunkEffect_Some:
  "find is_acceptChunkEffect es = Some e \<Longrightarrow> \<exists>v. e = AcceptChunkEffect v"
proof -
  assume "find is_acceptChunkEffect es = Some e"
  then have "is_acceptChunkEffect e" by (auto simp add: find_Some_iff)
  then show ?thesis by (cases e) simp_all
qed

section \<open>Facts about the reducer\<close>

text \<open>
  The reducer builds no chunk of its own: the chunk list it returns is the one it was given
  or a result of the three chunk operations. So a property of chunk lists that
  \<open>Chunk.build\<close> establishes and that \<open>Chunk.updateA\<close> and \<open>Chunk.updateB\<close> keep holds
  after every transaction.
\<close>

lemma computeChunks_preserves:
  assumes p0: "P chunks0"
      and pb: "\<And>a b. P (Chunk_build ops a b diffConf)"
      and pa: "\<And>cs a b ch. P cs \<Longrightarrow> P (Chunk_updateA ops cs a b ch diffConf)"
      and pu: "\<And>cs a b ch. P cs \<Longrightarrow> P (Chunk_updateB ops cs a b ch diffConf)"
      and cc: "computeChunks ops diffConf chunks0 tr = Inr (calls, chunks')"
  shows "P chunks'"
proof -
  define r1 where "r1 = (case find is_updateOriginalDoc (tr_effects tr) of
                  Some (UpdateOriginalDoc d cs) \<Rightarrow>
                    ([CallUpdateA],
                     Chunk_updateA ops chunks0 d (doc (tr_startState tr)) cs diffConf)
                | _ \<Rightarrow> ([], chunks0))"
  define p2 where "p2 = (case find is_acceptChunkEffect (tr_effects tr) of
                 Some (AcceptChunkEffect v) \<Rightarrow>
                   (case cs_apply (changes v) (field_originalDoc (tr_startState tr)) of
                      Inl e \<Rightarrow> Inl e
                    | Inr newA \<Rightarrow>
                        Inr (fst r1 @ [CallUpdateA],
                             Chunk_updateA ops (snd r1) newA (doc (tr_startState tr))
                               (changes v) diffConf))
               | _ \<Rightarrow> Inr r1)"
  have s1: "P (snd r1)"
    unfolding r1_def using p0 pa
    by (auto split: option.splits StateEffect.splits)
  have eq: "computeChunks ops diffConf chunks0 tr =
     (case p2 of
           Inl e \<Rightarrow> Inl e
         | Inr r2 \<Rightarrow>
             (case tr_originalDoc tr of
                Inl e \<Rightarrow> Inl e
              | Inr origDoc \<Rightarrow>
                  (case tr_newDoc tr of
                     Inl e \<Rightarrow> Inl e
                   | Inr newDoc \<Rightarrow>
                       (let r3 = (if find is_generateCodeEffect (tr_effects tr) \<noteq> None
                                  then (fst r2 @ [CallBuild],
                                        Chunk_build ops origDoc newDoc diffConf)
                                  else r2)
                        in Inr (if find is_rejectChunkEffect (tr_effects tr) \<noteq> None \<or> (snd r3 \<noteq> [] \<and> tr_docChanged tr)
                                then (fst r3 @ [CallUpdateB],
                                      Chunk_updateB ops (snd r3) origDoc newDoc
                                        (tr_changes tr) diffConf)
                                else r3)))))"
    unfolding computeChunks_def p2_def r1_def Let_def ..
  from cc eq obtain r2 origDoc newDoc where
    p2: "p2 = Inr r2" and od: "tr_originalDoc tr = Inr origDoc" and nd: "tr_newDoc tr = Inr newDoc"
    by (auto split: sum.splits)
  have s2: "P (snd r2)"
    using p2 s1 pa unfolding p2_def
    by (auto split: option.splits StateEffect.splits sum.splits)
  define r3 where "r3 = (if find is_generateCodeEffect (tr_effects tr) \<noteq> None
                                  then (fst r2 @ [CallBuild],
                                        Chunk_build ops origDoc newDoc diffConf)
                                  else r2)"
  have s3: "P (snd r3)" using s2 pb by (simp add: r3_def)
  have res: "(calls, chunks') =
      (if find is_rejectChunkEffect (tr_effects tr) \<noteq> None \<or> (snd r3 \<noteq> [] \<and> tr_docChanged tr)
       then (fst r3 @ [CallUpdateB],
             Chunk_updateB ops (snd r3) origDoc newDoc (tr_changes tr) diffConf)
       else r3)"
    using cc unfolding eq p2 od nd r3_def Let_def by simp
  then have "chunks' = Chunk_updateB ops (snd r3) origDoc newDoc (tr_changes tr) diffConf \<or>
             chunks' = snd r3"
    by (auto split: if_splits simp: prod_eq_iff)
  with s3 pu show ?thesis by auto
qed

section \<open>No chunk at the position\<close>

text \<open>
  C5. When no chunk of the store has \<open>fromB \<le> pos \<le> endB\<close>, \<open>acceptChunk\<close> and
  \<open>rejectChunk\<close> both return \<open>false\<close>, and the view's state (document A, document B and
  the chunk list) is the one it was: nothing is dispatched.
\<close>

theorem no_covering_chunk_fails:
  assumes "\<forall>ch \<in> set (field_ChunkField view). \<not> (fromB ch \<le> pos \<and> pos \<le> endB ch)"
  shows "acceptChunk ops diffConf view pos = Inr (False, view) \<and>
         rejectChunk ops diffConf view pos = Inr (False, view)"
proof -
  have "find (\<lambda>ch. fromB ch \<le> pos \<and> endB ch \<ge> pos) (field_ChunkField view) = None"
    using assms by (simp add: find_None_iff)
  then show ?thesis
    by (simp add: acceptChunk_def acceptChunk_spec_def rejectChunk_def rejectChunk_spec_def)
qed

theorem no_covering_chunk_fails_witness:
  "acceptChunk wholeDocOps () stMid 5 = Inr (False, stMid) \<and>
   rejectChunk wholeDocOps () stMid 5 = Inr (False, stMid)"
  using no_covering_chunk_fails [of stMid 5 wholeDocOps "()"]
  by (simp add: stMid_def chMid_def)

section \<open>The edit of an accept\<close>

text \<open>
  On \<open>stDel\<close> the chunk is a line of A that B does not have, in the middle of A. The
  code builds the edit that deletes the line and inserts nothing (no line terminator),
  which makes A equal to B. The edit as the specification words it inserts a line
  terminator there, and would leave an empty line in A.
\<close>

theorem accept_edit_counterexample:
  "find (\<lambda>ch. fromB ch \<le> 2 \<and> endB ch \<ge> 2) (field_ChunkField stDel) = Some chDel \<and>
   toA chDel < length (field_originalDoc stDel) \<and>
   acceptChunk_spec stDel 2 =
     Inr (Some \<lparr>spec_changes = None,
                spec_effects = [AcceptChunkEffect
                  \<lparr>chunkFromA = 2, chunkToA = 4, chunkFromB = 2, chunkToB = 2,
                   currentContent = [], changes = [Keep 2, Replace 2 [], Keep 1],
                   originalDoc = ''a\<newline>b\<newline>c''\<rparr>],
                spec_userEvent = ''accept''\<rparr>) \<and>
   spec_acceptEdit stDel chDel = Replacement 2 4 ''\<newline>'' \<and>
   ChangeSet_of (spec_acceptEdit stDel chDel) (length (field_originalDoc stDel)) =
     Inr [Keep 2, Replace 2 ''\<newline>'', Keep 1] \<and>
   [Keep 2, Replace 2 [], Keep 1] \<noteq> [Keep 2, Replace 2 ''\<newline>'', Keep 1] \<and>
   cs_apply [Keep 2, Replace 2 [], Keep 1] (field_originalDoc stDel) = Inr ''a\<newline>c'' \<and>
   cs_apply [Keep 2, Replace 2 ''\<newline>'', Keep 1] (field_originalDoc stDel) =
     Inr ''a\<newline>\<newline>c''"
  by code_simp

text \<open>
  C2 (amended). When a chunk covers the position and its A range is a valid range of A up to
  clamping (\<open>fromA \<le> toA\<close> and \<open>fromA\<close> a position of A), \<open>acceptChunk\<close> builds the edit
  that replaces \<open>[fromA, min (length A) toA)\<close> of A by B's content for
  \<open>[fromB, max fromB (toB - 1))\<close>, followed by a line break exactly when the B range of the
  chunk is not empty and \<open>toA \<le> length A\<close>. It returns \<open>true\<close>; the new A is the old one
  with the edit applied, B is unchanged, and the new chunk list is \<open>Chunk.updateA\<close> of the old
  one with the new A, B and that edit.
\<close>

theorem accept_builds_clamped_edit:
  assumes cover: "find (\<lambda>ch. fromB ch \<le> at \<and> endB ch \<ge> at) (field_ChunkField view) = Some chunk"
      and valid: "fromA chunk \<le> toA chunk" "fromA chunk \<le> length (field_originalDoc view)"
  shows "let orig = field_originalDoc view;
             to = min (length orig) (toA chunk);
             ins = (if fromB chunk \<noteq> toB chunk \<and> toA chunk \<le> length orig
                    then sliceString (doc view) (fromB chunk) (max (fromB chunk) (toB chunk - 1)) @ lineBreak
                    else sliceString (doc view) (fromB chunk) (max (fromB chunk) (toB chunk - 1)));
             newA = take (fromA chunk) orig @ textOf ins @ drop to orig
         in \<exists>cs. ChangeSet_of (Replacement (fromA chunk) to ins) (length orig) = Inr cs \<and>
                 cs_apply cs orig = Inr newA \<and>
                 acceptChunk ops diffConf view at =
                   Inr (True, \<lparr>doc = doc view, field_originalDoc = newA,
                               field_ChunkField =
                                 Chunk_updateA ops (field_ChunkField view) newA (doc view) cs
                                   diffConf\<rparr>)"
proof -
  define orig where "orig = field_originalDoc view"
  define to where "to = min (length orig) (toA chunk)"
  define ins where "ins = (if fromB chunk \<noteq> toB chunk \<and> toA chunk \<le> length orig
                    then sliceString (doc view) (fromB chunk) (max (fromB chunk) (toB chunk - 1)) @ lineBreak
                    else sliceString (doc view) (fromB chunk) (max (fromB chunk) (toB chunk - 1)))"
  have r: "fromA chunk \<le> to" "to \<le> length orig"
    using valid by (simp_all add: to_def orig_def)
  obtain cs where cs: "ChangeSet_of (Replacement (fromA chunk) to ins) (length orig) = Inr cs"
      and len: "cs_length cs = length orig"
      and app: "applySections cs orig = take (fromA chunk) orig @ textOf ins @ drop to orig"
    using ChangeSet_of_Replacement_ok [OF r, of ins] by auto
  have sp: "acceptChunk_spec view at =
          Inr (Some \<lparr>spec_changes = None,
                     spec_effects = [AcceptChunkEffect
                       \<lparr>chunkFromA = fromA chunk, chunkToA = toA chunk,
                        chunkFromB = fromB chunk, chunkToB = toB chunk,
                        currentContent = ins, changes = cs, originalDoc = orig\<rparr>],
                     spec_userEvent = ''accept''\<rparr>)"
    unfolding acceptChunk_spec_def Let_def sliceDoc_def cover
    using cs unfolding ins_def to_def orig_def
    by (simp only: option.case sum.case)
  have "acceptChunk ops diffConf view at =
                   Inr (True, \<lparr>doc = doc view, field_originalDoc = applySections cs orig,
                               field_ChunkField =
                                 Chunk_updateA ops (field_ChunkField view) (applySections cs orig) (doc view) cs
                                   diffConf\<rparr>)"
    unfolding acceptChunk_def sp
    using dispatch_accept [of cs view _ ops diffConf] len
    by (simp add: orig_def)
  moreover have "cs_apply cs orig = Inr (applySections cs orig)"
    using len by (simp add: cs_apply_def)
  ultimately show ?thesis
    using cs app unfolding Let_def orig_def [symmetric] to_def [symmetric] ins_def [symmetric]
    by (simp del: ChangeSet_of.simps)
qed

theorem accept_builds_clamped_edit_witness:
  "ChangeSet_of (Replacement 2 4 ''X\<newline>'') 5 = Inr [Keep 2, Replace 2 ''X\<newline>'', Keep 1] \<and>
   cs_apply [Keep 2, Replace 2 ''X\<newline>'', Keep 1] ''a\<newline>b\<newline>c'' = Inr ''a\<newline>X\<newline>c'' \<and>
   acceptChunk wholeDocOps () stMid 2 =
     Inr (True, \<lparr>doc = ''a\<newline>X\<newline>c'', field_originalDoc = ''a\<newline>X\<newline>c'',
                 field_ChunkField = []\<rparr>)"
proof -
  have c: "find (\<lambda>ch. fromB ch \<le> 2 \<and> endB ch \<ge> 2) (field_ChunkField stMid) = Some chMid"
    by (simp add: stMid_def chMid_def)
  have v1: "fromA chMid \<le> toA chMid" by (simp add: chMid_def)
  have v2: "fromA chMid \<le> length (field_originalDoc stMid)" by (simp add: chMid_def stMid_def)
  have e1: "ChangeSet_of (Replacement 2 4 ''X\<newline>'') 5 = Inr [Keep 2, Replace 2 ''X\<newline>'', Keep 1] \<and>
   cs_apply [Keep 2, Replace 2 ''X\<newline>'', Keep 1] ''a\<newline>b\<newline>c'' = Inr ''a\<newline>X\<newline>c''"
    by code_simp
  from accept_builds_clamped_edit [OF c v1 v2, of wholeDocOps "()"]
  have e2: "acceptChunk wholeDocOps () stMid 2 =
     Inr (True, \<lparr>doc = ''a\<newline>X\<newline>c'', field_originalDoc = ''a\<newline>X\<newline>c'',
                 field_ChunkField = []\<rparr>)"
    by (simp add: Let_def stMid_def chMid_def sliceString_def lineBreak_def cs_keepAll_def
        wholeDocOps_def wholeDocBuild_def)
  from e1 e2 show ?thesis by (simp only: simp_thms)
qed

section \<open>The edit of a reject\<close>

text \<open>
  On \<open>stIns\<close> the chunk is a line of B that A does not have, in the middle of B. The code
  builds the edit that deletes the line from B and inserts nothing; the edit as the
  specification words it inserts a line terminator and would leave an empty line in B.
\<close>

theorem reject_edit_counterexample:
  "find (\<lambda>ch. fromB ch \<le> 2 \<and> endB ch \<ge> 2) (field_ChunkField stIns) = Some chIns \<and>
   toB chIns < length (doc stIns) \<and>
   rejectChunk_spec stIns 2 =
     Inr (Some \<lparr>spec_changes = Some (Replacement 2 4 []),
                spec_effects = [RejectChunkEffect
                  \<lparr>chunkFromA = 2, chunkToA = 2, chunkFromB = 2, chunkToB = 4,
                   currentContent = ''b'', changes = [Keep 2, Replace 2 [], Keep 1],
                   originalContent = []\<rparr>],
                spec_userEvent = ''revert''\<rparr>) \<and>
   spec_rejectEdit stIns chIns = Replacement 2 4 ''\<newline>'' \<and>
   Replacement 2 4 [] \<noteq> Replacement 2 4 ''\<newline>'' \<and>
   cs_apply [Keep 2, Replace 2 [], Keep 1] (doc stIns) = Inr ''a\<newline>c'' \<and>
   ChangeSet_of (spec_rejectEdit stIns chIns) (length (doc stIns)) =
     Inr [Keep 2, Replace 2 ''\<newline>'', Keep 1] \<and>
   cs_apply [Keep 2, Replace 2 ''\<newline>'', Keep 1] (doc stIns) = Inr ''a\<newline>\<newline>c''"
  by code_simp

text \<open>
  C3 (amended). When a chunk covers the position and its B range is a valid range of B up to
  clamping (\<open>fromB \<le> toB\<close> and \<open>fromB\<close> a position of B), \<open>rejectChunk\<close> builds the edit
  that replaces \<open>[fromB, min (length B) toB)\<close> of B by A's content for
  \<open>[fromA, max fromA (toA - 1))\<close>, followed by a line break exactly when the A range of the
  chunk is not empty and \<open>toB \<le> length B\<close>. It returns \<open>true\<close>; the new B is the old one
  with the edit applied, A is unchanged, and the new chunk list is \<open>Chunk.updateB\<close> of the old
  one with A, the new B and that edit.
\<close>

theorem reject_builds_clamped_edit:
  assumes cover: "find (\<lambda>ch. fromB ch \<le> at \<and> endB ch \<ge> at) (field_ChunkField view) = Some chunk"
      and valid: "fromB chunk \<le> toB chunk" "fromB chunk \<le> length (doc view)"
  shows "let orig = field_originalDoc view;
             to = min (length (doc view)) (toB chunk);
             ins = (if fromA chunk \<noteq> toA chunk \<and> toB chunk \<le> length (doc view)
                    then sliceString orig (fromA chunk) (max (fromA chunk) (toA chunk - 1)) @ lineBreak
                    else sliceString orig (fromA chunk) (max (fromA chunk) (toA chunk - 1)));
             newB = take (fromB chunk) (doc view) @ textOf ins @ drop to (doc view)
         in \<exists>cs. ChangeSet_of (Replacement (fromB chunk) to ins) (length (doc view)) = Inr cs \<and>
                 cs_apply cs (doc view) = Inr newB \<and>
                 rejectChunk ops diffConf view at =
                   Inr (True, \<lparr>doc = newB, field_originalDoc = orig,
                               field_ChunkField =
                                 Chunk_updateB ops (field_ChunkField view) orig newB cs
                                   diffConf\<rparr>)"
proof -
  define orig where "orig = field_originalDoc view"
  define to where "to = min (length (doc view)) (toB chunk)"
  define ins where "ins = (if fromA chunk \<noteq> toA chunk \<and> toB chunk \<le> length (doc view)
                    then sliceString orig (fromA chunk) (max (fromA chunk) (toA chunk - 1)) @ lineBreak
                    else sliceString orig (fromA chunk) (max (fromA chunk) (toA chunk - 1)))"
  have r: "fromB chunk \<le> to" "to \<le> length (doc view)"
    using valid by (simp_all add: to_def)
  obtain cs where cs: "ChangeSet_of (Replacement (fromB chunk) to ins) (length (doc view)) = Inr cs"
      and len: "cs_length cs = length (doc view)"
      and app: "applySections cs (doc view) = take (fromB chunk) (doc view) @ textOf ins @ drop to (doc view)"
    using ChangeSet_of_Replacement_ok [OF r, of ins] by auto
  have sp: "rejectChunk_spec view at =
          Inr (Some \<lparr>spec_changes = Some (Replacement (fromB chunk) to ins),
                     spec_effects = [RejectChunkEffect
                       \<lparr>chunkFromA = fromA chunk, chunkToA = toA chunk,
                        chunkFromB = fromB chunk, chunkToB = toB chunk,
                        currentContent = sliceDoc view (fromB chunk) (max (fromB chunk) (toB chunk - 1)),
                        changes = cs, originalContent = ins\<rparr>],
                     spec_userEvent = ''revert''\<rparr>)"
    unfolding rejectChunk_spec_def Let_def cover
    using cs unfolding ins_def to_def orig_def
    by (simp only: option.case sum.case)
  have "rejectChunk ops diffConf view at =
                   Inr (True, \<lparr>doc = applySections cs (doc view), field_originalDoc = orig,
                               field_ChunkField =
                                 Chunk_updateB ops (field_ChunkField view) orig (applySections cs (doc view)) cs
                                   diffConf\<rparr>)"
    unfolding rejectChunk_def sp
    using dispatch_reject [OF cs len, of ops diffConf] 
    by (simp add: orig_def)
  moreover have "cs_apply cs (doc view) = Inr (applySections cs (doc view))"
    using len by (simp add: cs_apply_def)
  ultimately show ?thesis
    using cs app unfolding Let_def orig_def [symmetric] to_def [symmetric] ins_def [symmetric]
    by (simp del: ChangeSet_of.simps)
qed

theorem reject_builds_clamped_edit_witness:
  "ChangeSet_of (Replacement 2 4 ''b\<newline>'') 5 = Inr [Keep 2, Replace 2 ''b\<newline>'', Keep 1] \<and>
   cs_apply [Keep 2, Replace 2 ''b\<newline>'', Keep 1] ''a\<newline>X\<newline>c'' = Inr ''a\<newline>b\<newline>c'' \<and>
   rejectChunk wholeDocOps () stMid 2 =
     Inr (True, \<lparr>doc = ''a\<newline>b\<newline>c'', field_originalDoc = ''a\<newline>b\<newline>c'',
                 field_ChunkField = []\<rparr>)"
proof -
  have c: "find (\<lambda>ch. fromB ch \<le> 2 \<and> endB ch \<ge> 2) (field_ChunkField stMid) = Some chMid"
    by (simp add: stMid_def chMid_def)
  have v1: "fromB chMid \<le> toB chMid" by (simp add: chMid_def)
  have v2: "fromB chMid \<le> length (doc stMid)" by (simp add: chMid_def stMid_def)
  have e1: "ChangeSet_of (Replacement 2 4 ''b\<newline>'') 5 = Inr [Keep 2, Replace 2 ''b\<newline>'', Keep 1] \<and>
   cs_apply [Keep 2, Replace 2 ''b\<newline>'', Keep 1] ''a\<newline>X\<newline>c'' = Inr ''a\<newline>b\<newline>c''"
    by code_simp
  from reject_builds_clamped_edit [OF c v1 v2, of wholeDocOps "()"]
  have e2: "rejectChunk wholeDocOps () stMid 2 =
     Inr (True, \<lparr>doc = ''a\<newline>b\<newline>c'', field_originalDoc = ''a\<newline>b\<newline>c'',
                 field_ChunkField = []\<rparr>)"
    by (simp add: Let_def stMid_def chMid_def sliceString_def lineBreak_def cs_keepAll_def
        wholeDocOps_def wholeDocBuild_def)
  from e1 e2 show ?thesis by (simp only: simp_thms)
qed

section \<open>What accept and reject leave untouched\<close>

text \<open>
  What a call of \<open>acceptChunk\<close> or \<open>rejectChunk\<close> that returns leaves behind, and which
  calls return.
\<close>

lemma accept_reject_results:
  "(acceptChunk ops diffConf view at = Inr (b, viewA) \<longrightarrow>
      doc viewA = doc view \<and>
      (\<not> b \<longrightarrow> viewA = view) \<and>
      (b \<longrightarrow> (\<exists>spec tr v. acceptChunk_spec view at = Inr (Some spec) \<and>
                 spec_effects spec = [AcceptChunkEffect v] \<and>
                 state_update view spec = Inr tr \<and>
                 tr_state ops diffConf tr = Inr viewA \<and>
                 cs_apply (changes v) (field_originalDoc view) = Inr (field_originalDoc viewA) \<and>
                 computeChunks ops diffConf (field_ChunkField view) tr =
                   Inr ([CallUpdateA], field_ChunkField viewA) \<and>
                 field_ChunkField viewA =
                   Chunk_updateA ops (field_ChunkField view) (field_originalDoc viewA) (doc view)
                     (changes v) diffConf))) \<and>
   (rejectChunk ops diffConf view at = Inr (b', viewR) \<longrightarrow>
      field_originalDoc viewR = field_originalDoc view \<and>
      (\<not> b' \<longrightarrow> viewR = view) \<and>
      (b' \<longrightarrow> (\<exists>spec tr v. rejectChunk_spec view at = Inr (Some spec) \<and>
                 spec_effects spec = [RejectChunkEffect v] \<and>
                 state_update view spec = Inr tr \<and>
                 tr_changes tr = changes v \<and>
                 tr_state ops diffConf tr = Inr viewR \<and>
                 cs_apply (changes v) (doc view) = Inr (doc viewR) \<and>
                 computeChunks ops diffConf (field_ChunkField view) tr =
                   Inr ([CallUpdateB], field_ChunkField viewR) \<and>
                 field_ChunkField viewR =
                   Chunk_updateB ops (field_ChunkField view) (field_originalDoc view) (doc viewR)
                     (changes v) diffConf)))"

proof (intro conjI impI)
  assume a: "acceptChunk ops diffConf view at = Inr (b, viewA)"
  have "doc viewA = doc view \<and>
      (\<not> b \<longrightarrow> viewA = view) \<and>
      (b \<longrightarrow> (\<exists>spec tr v. acceptChunk_spec view at = Inr (Some spec) \<and>
                 spec_effects spec = [AcceptChunkEffect v] \<and>
                 state_update view spec = Inr tr \<and>
                 tr_state ops diffConf tr = Inr viewA \<and>
                 cs_apply (changes v) (field_originalDoc view) = Inr (field_originalDoc viewA) \<and>
                 computeChunks ops diffConf (field_ChunkField view) tr =
                   Inr ([CallUpdateA], field_ChunkField viewA) \<and>
                 field_ChunkField viewA =
                   Chunk_updateA ops (field_ChunkField view) (field_originalDoc viewA) (doc view)
                     (changes v) diffConf))"
  proof (cases "acceptChunk_spec view at")
    case (Inl e)
    with a show ?thesis by (simp add: acceptChunk_def)
  next
    case (Inr r)
    show ?thesis
    proof (cases r)
      case None
      with a Inr show ?thesis by (simp add: acceptChunk_def)
    next
      case (Some spec)
      with Inr have sp: "acceptChunk_spec view at = Inr (Some spec)" by simp
      from acceptChunk_spec_SomeD [OF sp] obtain chunk :: Chunk and v :: AcceptValue where
        spec: "spec = \<lparr>spec_changes = None, spec_effects = [AcceptChunkEffect v],
                   spec_userEvent = ''accept''\<rparr>"
        and cs: "ChangeSet_of
             (Replacement (fromA chunk) (min (length (field_originalDoc view)) (toA chunk))
                (currentContent v))
             (length (field_originalDoc view)) = Inr (changes v)"
        by blast
      have len: "cs_length (changes v) = length (field_originalDoc view)"
        using ChangeSet_of_Replacement_length [OF cs] .
      let ?newA = "applySections (changes v) (field_originalDoc view)"
      let ?chunks = "Chunk_updateA ops (field_ChunkField view) ?newA (doc view) (changes v) diffConf"
      from accept_transaction [OF len, of "''accept''" ops diffConf] obtain tr where
        su: "state_update view spec = Inr tr"
        and cc: "computeChunks ops diffConf (field_ChunkField view) tr =
              Inr ([CallUpdateA], ?chunks)"
        and ts: "tr_state ops diffConf tr =
              Inr \<lparr>doc = doc view, field_originalDoc = ?newA, field_ChunkField = ?chunks\<rparr>"
        unfolding spec by blast
      have res: "b = True \<and> viewA = \<lparr>doc = doc view, field_originalDoc = ?newA,
                                      field_ChunkField = ?chunks\<rparr>"
        using a by (simp add: acceptChunk_def dispatch_def sp su ts)
      have ap: "cs_apply (changes v) (field_originalDoc view) = Inr ?newA"
        using len by (simp add: cs_apply_def)
      have e: "spec_effects spec = [AcceptChunkEffect v]" by (simp add: spec)
      from res cc ts ap have
        "tr_state ops diffConf tr = Inr viewA"
        "cs_apply (changes v) (field_originalDoc view) = Inr (field_originalDoc viewA)"
        "computeChunks ops diffConf (field_ChunkField view) tr =
           Inr ([CallUpdateA], field_ChunkField viewA)"
        "field_ChunkField viewA =
           Chunk_updateA ops (field_ChunkField view) (field_originalDoc viewA) (doc view)
             (changes v) diffConf"
        "doc viewA = doc view" "b"
        by simp_all
      with sp e su show ?thesis by blast
    qed
  qed
  then show "doc viewA = doc view" and "\<not> b \<Longrightarrow> viewA = view"
    and "b \<Longrightarrow> (\<exists>spec tr v. acceptChunk_spec view at = Inr (Some spec) \<and>
                 spec_effects spec = [AcceptChunkEffect v] \<and>
                 state_update view spec = Inr tr \<and>
                 tr_state ops diffConf tr = Inr viewA \<and>
                 cs_apply (changes v) (field_originalDoc view) = Inr (field_originalDoc viewA) \<and>
                 computeChunks ops diffConf (field_ChunkField view) tr =
                   Inr ([CallUpdateA], field_ChunkField viewA) \<and>
                 field_ChunkField viewA =
                   Chunk_updateA ops (field_ChunkField view) (field_originalDoc viewA) (doc view)
                     (changes v) diffConf)"
    by simp_all
next
  assume a: "rejectChunk ops diffConf view at = Inr (b', viewR)"
  have "field_originalDoc viewR = field_originalDoc view \<and>
      (\<not> b' \<longrightarrow> viewR = view) \<and>
      (b' \<longrightarrow> (\<exists>spec tr v. rejectChunk_spec view at = Inr (Some spec) \<and>
                 spec_effects spec = [RejectChunkEffect v] \<and>
                 state_update view spec = Inr tr \<and>
                 tr_changes tr = changes v \<and>
                 tr_state ops diffConf tr = Inr viewR \<and>
                 cs_apply (changes v) (doc view) = Inr (doc viewR) \<and>
                 computeChunks ops diffConf (field_ChunkField view) tr =
                   Inr ([CallUpdateB], field_ChunkField viewR) \<and>
                 field_ChunkField viewR =
                   Chunk_updateB ops (field_ChunkField view) (field_originalDoc view) (doc viewR)
                     (changes v) diffConf))"
  proof (cases "rejectChunk_spec view at")
    case (Inl e)
    with a show ?thesis by (simp add: rejectChunk_def)
  next
    case (Inr r)
    show ?thesis
    proof (cases r)
      case None
      with a Inr show ?thesis by (simp add: rejectChunk_def)
    next
      case (Some spec)
      with Inr have sp: "rejectChunk_spec view at = Inr (Some spec)" by simp
      from rejectChunk_spec_SomeD [OF sp] obtain chunk :: Chunk and v :: RejectValue where
        spec: "spec = \<lparr>spec_changes =
                     Some (Replacement (fromB chunk) (min (length (doc view)) (toB chunk))
                             (originalContent v)),
                   spec_effects = [RejectChunkEffect v], spec_userEvent = ''revert''\<rparr>"
        and cs: "ChangeSet_of
             (Replacement (fromB chunk) (min (length (doc view)) (toB chunk)) (originalContent v))
             (length (doc view)) = Inr (changes v)"
        by blast
      have len: "cs_length (changes v) = length (doc view)"
        using ChangeSet_of_Replacement_length [OF cs] .
      let ?newB = "applySections (changes v) (doc view)"
      let ?chunks = "Chunk_updateB ops (field_ChunkField view) (field_originalDoc view) ?newB
                       (changes v) diffConf"
      from reject_transaction [OF cs len, of v "''revert''" ops diffConf] obtain tr where
        su: "state_update view spec = Inr tr"
        and cc: "computeChunks ops diffConf (field_ChunkField view) tr =
              Inr ([CallUpdateB], ?chunks)"
        and ts: "tr_state ops diffConf tr =
              Inr \<lparr>doc = ?newB, field_originalDoc = field_originalDoc view,
                   field_ChunkField = ?chunks\<rparr>"
        unfolding spec by blast
      have tc: "tr_changes tr = changes v"
        using su cs by (auto simp add: spec state_update_def)
      have res: "b' = True \<and> viewR = \<lparr>doc = ?newB, field_originalDoc = field_originalDoc view,
                   field_ChunkField = ?chunks\<rparr>"
        using a by (simp add: rejectChunk_def dispatch_def sp su ts)
      have ap: "cs_apply (changes v) (doc view) = Inr ?newB"
        using len by (simp add: cs_apply_def)
      have e: "spec_effects spec = [RejectChunkEffect v]" by (simp add: spec)
      from res cc ts ap have
        "tr_state ops diffConf tr = Inr viewR"
        "cs_apply (changes v) (doc view) = Inr (doc viewR)"
        "computeChunks ops diffConf (field_ChunkField view) tr =
           Inr ([CallUpdateB], field_ChunkField viewR)"
        "field_ChunkField viewR =
           Chunk_updateB ops (field_ChunkField view) (field_originalDoc view) (doc viewR)
             (changes v) diffConf"
        "field_originalDoc viewR = field_originalDoc view" "b'"
        by simp_all
      with sp e su tc show ?thesis by blast
    qed
  qed
  then show "field_originalDoc viewR = field_originalDoc view" and "\<not> b' \<Longrightarrow> viewR = view"
    and "b' \<Longrightarrow> (\<exists>spec tr v. rejectChunk_spec view at = Inr (Some spec) \<and>
                 spec_effects spec = [RejectChunkEffect v] \<and>
                 state_update view spec = Inr tr \<and>
                 tr_changes tr = changes v \<and>
                 tr_state ops diffConf tr = Inr viewR \<and>
                 cs_apply (changes v) (doc view) = Inr (doc viewR) \<and>
                 computeChunks ops diffConf (field_ChunkField view) tr =
                   Inr ([CallUpdateB], field_ChunkField viewR) \<and>
                 field_ChunkField viewR =
                   Chunk_updateB ops (field_ChunkField view) (field_originalDoc view) (doc viewR)
                     (changes v) diffConf)"
    by simp_all
qed


lemma accept_reject_outcome:
  "(case find (\<lambda>ch. fromB ch \<le> at \<and> endB ch \<ge> at) (field_ChunkField view) of
      None \<Rightarrow>
        acceptChunk ops diffConf view at = Inr (False, view) \<and>
        rejectChunk ops diffConf view at = Inr (False, view)
    | Some chunk \<Rightarrow>
        (if fromA chunk \<le> toA chunk \<and> fromA chunk \<le> length (field_originalDoc view)
         then \<exists>view'. acceptChunk ops diffConf view at = Inr (True, view')
         else acceptChunk ops diffConf view at = Inl RangeError) \<and>
        (if fromB chunk \<le> toB chunk \<and> fromB chunk \<le> length (doc view)
         then \<exists>view'. rejectChunk ops diffConf view at = Inr (True, view')
         else rejectChunk ops diffConf view at = Inl RangeError))"
proof (cases "find (\<lambda>ch. fromB ch \<le> at \<and> endB ch \<ge> at) (field_ChunkField view)")
  case None
  then show ?thesis
    by (simp add: acceptChunk_def acceptChunk_spec_def rejectChunk_def rejectChunk_spec_def)
next
  case (Some chunk)
  have a: "if fromA chunk \<le> toA chunk \<and> fromA chunk \<le> length (field_originalDoc view)
         then \<exists>view'. acceptChunk ops diffConf view at = Inr (True, view')
         else acceptChunk ops diffConf view at = Inl RangeError"
  proof (cases "fromA chunk \<le> toA chunk \<and> fromA chunk \<le> length (field_originalDoc view)")
    case True
    from acceptChunk_valid_range [OF Some True, of ops diffConf]
    have "\<exists>view'. acceptChunk ops diffConf view at = Inr (True, view')"
      unfolding Let_def by blast
    with True show ?thesis by simp
  next
    case False
    then have "fromA chunk > toA chunk \<or> fromA chunk > length (field_originalDoc view)"
      by auto
    from acceptChunk_invalid_range [OF Some this, of ops diffConf] False show ?thesis by simp
  qed
  have r: "if fromB chunk \<le> toB chunk \<and> fromB chunk \<le> length (doc view)
         then \<exists>view'. rejectChunk ops diffConf view at = Inr (True, view')
         else rejectChunk ops diffConf view at = Inl RangeError"
  proof (cases "fromB chunk \<le> toB chunk \<and> fromB chunk \<le> length (doc view)")
    case True
    from rejectChunk_valid_range [OF Some True, of ops diffConf]
    have "\<exists>view'. rejectChunk ops diffConf view at = Inr (True, view')"
      unfolding Let_def by blast
    with True show ?thesis by simp
  next
    case False
    then have "fromB chunk > toB chunk \<or> fromB chunk > length (doc view)"
      by auto
    from rejectChunk_invalid_range [OF Some this, of ops diffConf] False show ?thesis by simp
  qed
  from a r show ?thesis unfolding Some by (simp only: option.case simp_thms)
qed

text \<open>
  C4. Whatever \<open>acceptChunk\<close> returns, document B is the one it was; whatever
  \<open>rejectChunk\<close> returns, document A is the one it was; when either returns \<open>false\<close> the
  whole state is the one it was. When either returns \<open>true\<close>, the state it leaves is the
  state of one transaction that carries the edit: for an accept the new A is the old one
  with the edit applied and the new chunk list is \<open>Chunk.updateA\<close> of the old list with
  the new A, B and the edit; for a reject the new B is the old one with the edit applied
  and the new chunk list is \<open>Chunk.updateB\<close> of the old list with A, the new B and the
  edit. The reducer makes exactly that one call in that transaction. Both calls return
  \<open>false\<close> when no chunk covers the position; with a covering chunk each returns \<open>true\<close>
  when the chunk's range in its target document starts at a position of the document and
  does not end before its start, and raises a RangeError otherwise.
\<close>

theorem accept_reject_frame:
  "(acceptChunk ops diffConf view at = Inr (b, viewA) \<longrightarrow>
      doc viewA = doc view \<and>
      (\<not> b \<longrightarrow> viewA = view) \<and>
      (b \<longrightarrow> (\<exists>spec tr v. acceptChunk_spec view at = Inr (Some spec) \<and>
                 spec_effects spec = [AcceptChunkEffect v] \<and>
                 state_update view spec = Inr tr \<and>
                 tr_state ops diffConf tr = Inr viewA \<and>
                 cs_apply (changes v) (field_originalDoc view) = Inr (field_originalDoc viewA) \<and>
                 computeChunks ops diffConf (field_ChunkField view) tr =
                   Inr ([CallUpdateA], field_ChunkField viewA) \<and>
                 field_ChunkField viewA =
                   Chunk_updateA ops (field_ChunkField view) (field_originalDoc viewA) (doc view)
                     (changes v) diffConf))) \<and>
   (rejectChunk ops diffConf view at = Inr (b', viewR) \<longrightarrow>
      field_originalDoc viewR = field_originalDoc view \<and>
      (\<not> b' \<longrightarrow> viewR = view) \<and>
      (b' \<longrightarrow> (\<exists>spec tr v. rejectChunk_spec view at = Inr (Some spec) \<and>
                 spec_effects spec = [RejectChunkEffect v] \<and>
                 state_update view spec = Inr tr \<and>
                 tr_changes tr = changes v \<and>
                 tr_state ops diffConf tr = Inr viewR \<and>
                 cs_apply (changes v) (doc view) = Inr (doc viewR) \<and>
                 computeChunks ops diffConf (field_ChunkField view) tr =
                   Inr ([CallUpdateB], field_ChunkField viewR) \<and>
                 field_ChunkField viewR =
                   Chunk_updateB ops (field_ChunkField view) (field_originalDoc view) (doc viewR)
                     (changes v) diffConf))) \<and>
   (case find (\<lambda>ch. fromB ch \<le> at \<and> endB ch \<ge> at) (field_ChunkField view) of
      None \<Rightarrow>
        acceptChunk ops diffConf view at = Inr (False, view) \<and>
        rejectChunk ops diffConf view at = Inr (False, view)
    | Some chunk \<Rightarrow>
        (if fromA chunk \<le> toA chunk \<and> fromA chunk \<le> length (field_originalDoc view)
         then \<exists>view'. acceptChunk ops diffConf view at = Inr (True, view')
         else acceptChunk ops diffConf view at = Inl RangeError) \<and>
        (if fromB chunk \<le> toB chunk \<and> fromB chunk \<le> length (doc view)
         then \<exists>view'. rejectChunk ops diffConf view at = Inr (True, view')
         else rejectChunk ops diffConf view at = Inl RangeError))"
proof -
  note ab = accept_reject_results [of ops diffConf view at b viewA b' viewR]
  note c = accept_reject_outcome [where at = at and view = view and ops = ops
             and diffConf = diffConf]
  from conjunct1 [OF ab] conjunct2 [OF ab] c show ?thesis
    by (intro conjI)
qed

theorem accept_reject_frame_witness:
  "acceptChunk wholeDocOps () stTwo 2 = Inr (True, stTwoAccepted) \<and>
   doc stTwoAccepted = doc stTwo \<and>
   field_ChunkField stTwoAccepted \<noteq> [] \<and>
   (\<exists>spec tr v. acceptChunk_spec stTwo 2 = Inr (Some spec) \<and>
                 spec_effects spec = [AcceptChunkEffect v] \<and>
                 state_update stTwo spec = Inr tr \<and>
                 tr_state wholeDocOps () tr = Inr stTwoAccepted \<and>
                 cs_apply (changes v) (field_originalDoc stTwo) =
                   Inr (field_originalDoc stTwoAccepted) \<and>
                 computeChunks wholeDocOps () (field_ChunkField stTwo) tr =
                   Inr ([CallUpdateA], field_ChunkField stTwoAccepted) \<and>
                 field_ChunkField stTwoAccepted =
                   Chunk_updateA wholeDocOps (field_ChunkField stTwo)
                     (field_originalDoc stTwoAccepted) (doc stTwo) (changes v) ()) \<and>
   rejectChunk wholeDocOps () stTwo 2 = Inr (True, stTwoRejected) \<and>
   field_originalDoc stTwoRejected = field_originalDoc stTwo \<and>
   field_ChunkField stTwoRejected \<noteq> [] \<and>
   (\<exists>spec tr v. rejectChunk_spec stTwo 2 = Inr (Some spec) \<and>
                 spec_effects spec = [RejectChunkEffect v] \<and>
                 state_update stTwo spec = Inr tr \<and>
                 tr_changes tr = changes v \<and>
                 tr_state wholeDocOps () tr = Inr stTwoRejected \<and>
                 cs_apply (changes v) (doc stTwo) = Inr (doc stTwoRejected) \<and>
                 computeChunks wholeDocOps () (field_ChunkField stTwo) tr =
                   Inr ([CallUpdateB], field_ChunkField stTwoRejected) \<and>
                 field_ChunkField stTwoRejected =
                   Chunk_updateB wholeDocOps (field_ChunkField stTwo) (field_originalDoc stTwo)
                     (doc stTwoRejected) (changes v) ())"
proof -
  have a: "acceptChunk wholeDocOps () stTwo 2 = Inr (True, stTwoAccepted)"
    by code_simp
  have r: "rejectChunk wholeDocOps () stTwo 2 = Inr (True, stTwoRejected)"
    by code_simp
  have n: "field_ChunkField stTwoAccepted \<noteq> [] \<and> field_ChunkField stTwoRejected \<noteq> []"
    by code_simp
  from accept_reject_frame [of wholeDocOps "()" stTwo 2 True stTwoAccepted True stTwoRejected] a r n
  show ?thesis by simp
qed

section \<open>The dispatched edit stays inside its document\<close>

text \<open>
  C9. For every chunk that covers the position, \<open>acceptChunk\<close> resolves it exactly when
  its A range starts at a position of A and does not end before it starts, and
  \<open>rejectChunk\<close> exactly when its B range does so in B; otherwise \<open>ChangeSet.of\<close> raises
  and nothing is dispatched. A resolved chunk, also one whose \<open>toA\<close> or \<open>toB\<close> lies beyond
  the end of its document, gets an edit whose range starts at the chunk's start and ends at
  the minimum of the document's length and the chunk's end, so the range lies inside the
  target document; the content slices end at the maximum of the start and the end minus
  one; and the edit applies: the call returns \<open>true\<close> with the edited document.
\<close>

theorem dispatched_edit_in_bounds:
  assumes cover: "find (\<lambda>ch. fromB ch \<le> at \<and> endB ch \<ge> at) (field_ChunkField view) = Some chunk"
  shows "(fromA chunk \<le> toA chunk \<and> fromA chunk \<le> length (field_originalDoc view) \<longrightarrow>
          (let orig = field_originalDoc view;
               to = min (length orig) (toA chunk);
               ins = (if fromB chunk \<noteq> toB chunk \<and> toA chunk \<le> length orig
                      then sliceDoc view (fromB chunk) (max (fromB chunk) (toB chunk - 1)) @ lineBreak
                      else sliceDoc view (fromB chunk) (max (fromB chunk) (toB chunk - 1)));
               newA = take (fromA chunk) orig @ textOf ins @ drop to orig
           in fromA chunk \<le> to \<and> to \<le> length orig \<and>
              (\<exists>cs. ChangeSet_of (Replacement (fromA chunk) to ins) (length orig) = Inr cs \<and>
                    acceptChunk_spec view at =
                      Inr (Some \<lparr>spec_changes = None,
                         spec_effects = [AcceptChunkEffect
                           \<lparr>chunkFromA = fromA chunk, chunkToA = toA chunk,
                            chunkFromB = fromB chunk, chunkToB = toB chunk,
                            currentContent = ins, changes = cs, originalDoc = orig\<rparr>],
                         spec_userEvent = ''accept''\<rparr>) \<and>
                    cs_apply cs orig = Inr newA \<and>
                    acceptChunk ops diffConf view at =
                      Inr (True, \<lparr>doc = doc view, field_originalDoc = newA,
                                  field_ChunkField =
                                    Chunk_updateA ops (field_ChunkField view) newA (doc view) cs
                                      diffConf\<rparr>)))) \<and>
         (\<not> (fromA chunk \<le> toA chunk \<and> fromA chunk \<le> length (field_originalDoc view)) \<longrightarrow>
            acceptChunk_spec view at = Inl RangeError \<and>
            acceptChunk ops diffConf view at = Inl RangeError) \<and>
         (fromB chunk \<le> toB chunk \<and> fromB chunk \<le> length (doc view) \<longrightarrow>
          (let orig = field_originalDoc view;
               to = min (length (doc view)) (toB chunk);
               ins = (if fromA chunk \<noteq> toA chunk \<and> toB chunk \<le> length (doc view)
                      then sliceString orig (fromA chunk) (max (fromA chunk) (toA chunk - 1)) @ lineBreak
                      else sliceString orig (fromA chunk) (max (fromA chunk) (toA chunk - 1)));
               newB = take (fromB chunk) (doc view) @ textOf ins @ drop to (doc view)
           in fromB chunk \<le> to \<and> to \<le> length (doc view) \<and>
              (\<exists>cs. ChangeSet_of (Replacement (fromB chunk) to ins) (length (doc view)) = Inr cs \<and>
                    rejectChunk_spec view at =
                      Inr (Some \<lparr>spec_changes = Some (Replacement (fromB chunk) to ins),
                         spec_effects = [RejectChunkEffect
                           \<lparr>chunkFromA = fromA chunk, chunkToA = toA chunk,
                            chunkFromB = fromB chunk, chunkToB = toB chunk,
                            currentContent =
                              sliceDoc view (fromB chunk) (max (fromB chunk) (toB chunk - 1)),
                            changes = cs, originalContent = ins\<rparr>],
                         spec_userEvent = ''revert''\<rparr>) \<and>
                    cs_apply cs (doc view) = Inr newB \<and>
                    rejectChunk ops diffConf view at =
                      Inr (True, \<lparr>doc = newB, field_originalDoc = orig,
                                  field_ChunkField =
                                    Chunk_updateB ops (field_ChunkField view) orig newB cs
                                      diffConf\<rparr>)))) \<and>
         (\<not> (fromB chunk \<le> toB chunk \<and> fromB chunk \<le> length (doc view)) \<longrightarrow>
            rejectChunk_spec view at = Inl RangeError \<and>
            rejectChunk ops diffConf view at = Inl RangeError)"
proof (intro conjI impI)
  assume v: "fromA chunk \<le> toA chunk \<and> fromA chunk \<le> length (field_originalDoc view)"
  show "let orig = field_originalDoc view;
               to = min (length orig) (toA chunk);
               ins = (if fromB chunk \<noteq> toB chunk \<and> toA chunk \<le> length orig
                      then sliceDoc view (fromB chunk) (max (fromB chunk) (toB chunk - 1)) @ lineBreak
                      else sliceDoc view (fromB chunk) (max (fromB chunk) (toB chunk - 1)));
               newA = take (fromA chunk) orig @ textOf ins @ drop to orig
           in fromA chunk \<le> to \<and> to \<le> length orig \<and>
              (\<exists>cs. ChangeSet_of (Replacement (fromA chunk) to ins) (length orig) = Inr cs \<and>
                    acceptChunk_spec view at =
                      Inr (Some \<lparr>spec_changes = None,
                         spec_effects = [AcceptChunkEffect
                           \<lparr>chunkFromA = fromA chunk, chunkToA = toA chunk,
                            chunkFromB = fromB chunk, chunkToB = toB chunk,
                            currentContent = ins, changes = cs, originalDoc = orig\<rparr>],
                         spec_userEvent = ''accept''\<rparr>) \<and>
                    cs_apply cs orig = Inr newA \<and>
                    acceptChunk ops diffConf view at =
                      Inr (True, \<lparr>doc = doc view, field_originalDoc = newA,
                                  field_ChunkField =
                                    Chunk_updateA ops (field_ChunkField view) newA (doc view) cs
                                      diffConf\<rparr>))"
    using acceptChunk_valid_range [OF cover v] .
next
  assume n: "\<not> (fromA chunk \<le> toA chunk \<and> fromA chunk \<le> length (field_originalDoc view))"
  show "acceptChunk_spec view at = Inl RangeError"
    using acceptChunk_spec_invalid_range [OF cover n] .
  then show "acceptChunk ops diffConf view at = Inl RangeError"
    by (simp add: acceptChunk_def)
next
  assume v: "fromB chunk \<le> toB chunk \<and> fromB chunk \<le> length (doc view)"
  show "let orig = field_originalDoc view;
               to = min (length (doc view)) (toB chunk);
               ins = (if fromA chunk \<noteq> toA chunk \<and> toB chunk \<le> length (doc view)
                      then sliceString orig (fromA chunk) (max (fromA chunk) (toA chunk - 1)) @ lineBreak
                      else sliceString orig (fromA chunk) (max (fromA chunk) (toA chunk - 1)));
               newB = take (fromB chunk) (doc view) @ textOf ins @ drop to (doc view)
           in fromB chunk \<le> to \<and> to \<le> length (doc view) \<and>
              (\<exists>cs. ChangeSet_of (Replacement (fromB chunk) to ins) (length (doc view)) = Inr cs \<and>
                    rejectChunk_spec view at =
                      Inr (Some \<lparr>spec_changes = Some (Replacement (fromB chunk) to ins),
                         spec_effects = [RejectChunkEffect
                           \<lparr>chunkFromA = fromA chunk, chunkToA = toA chunk,
                            chunkFromB = fromB chunk, chunkToB = toB chunk,
                            currentContent =
                              sliceDoc view (fromB chunk) (max (fromB chunk) (toB chunk - 1)),
                            changes = cs, originalContent = ins\<rparr>],
                         spec_userEvent = ''revert''\<rparr>) \<and>
                    cs_apply cs (doc view) = Inr newB \<and>
                    rejectChunk ops diffConf view at =
                      Inr (True, \<lparr>doc = newB, field_originalDoc = orig,
                                  field_ChunkField =
                                    Chunk_updateB ops (field_ChunkField view) orig newB cs
                                      diffConf\<rparr>))"
    using rejectChunk_valid_range [OF cover v] .
next
  assume n: "\<not> (fromB chunk \<le> toB chunk \<and> fromB chunk \<le> length (doc view))"
  show "rejectChunk_spec view at = Inl RangeError"
    using rejectChunk_spec_invalid_range [OF cover n] .
  then show "rejectChunk ops diffConf view at = Inl RangeError"
    by (simp add: rejectChunk_def)
qed

theorem dispatched_edit_in_bounds_witness:
  "find (\<lambda>ch. fromB ch \<le> 2 \<and> endB ch \<ge> 2) (field_ChunkField stEnd) = Some chEnd \<and>
   toA chEnd > length (field_originalDoc stEnd) \<and>
   toB chEnd > length (doc stEnd) \<and>
   acceptChunk_spec stEnd 2 = Inr (Some specEndAccept) \<and>
   spec_effects specEndAccept = [AcceptChunkEffect accEffEnd] \<and>
   ChangeSet_of (Replacement 2 3 ''X'') 3 = Inr (changes accEffEnd) \<and>
   acceptChunk wholeDocOps () stEnd 2 =
     Inr (True, \<lparr>doc = ''a\<newline>X'', field_originalDoc = ''a\<newline>X'', field_ChunkField = []\<rparr>) \<and>
   rejectChunk_spec stEnd 2 = Inr (Some specEndReject) \<and>
   spec_changes specEndReject = Some (Replacement 2 3 ''b'') \<and>
   rejectChunk wholeDocOps () stEnd 2 =
     Inr (True, \<lparr>doc = ''a\<newline>b'', field_originalDoc = ''a\<newline>b'', field_ChunkField = []\<rparr>)"
proof -
  have c: "find (\<lambda>ch. fromB ch \<le> 2 \<and> endB ch \<ge> 2) (field_ChunkField stEnd) = Some chEnd"
    by code_simp
  have va: "fromA chEnd \<le> toA chEnd \<and> fromA chEnd \<le> length (field_originalDoc stEnd)"
    by code_simp
  have vb: "fromB chEnd \<le> toB chEnd \<and> fromB chEnd \<le> length (doc stEnd)"
    by code_simp
  have e: "toA chEnd > length (field_originalDoc stEnd) \<and> toB chEnd > length (doc stEnd) \<and>
           spec_effects specEndAccept = [AcceptChunkEffect accEffEnd] \<and>
           ChangeSet_of (Replacement 2 3 ''X'') 3 = Inr (changes accEffEnd) \<and>
           spec_changes specEndReject = Some (Replacement 2 3 ''b'')"
    by code_simp
  note t = dispatched_edit_in_bounds [OF c, of wholeDocOps "()"]
  from t va have
    "acceptChunk_spec stEnd 2 = Inr (Some specEndAccept) \<and>
     acceptChunk wholeDocOps () stEnd 2 =
       Inr (True, \<lparr>doc = ''a\<newline>X'', field_originalDoc = ''a\<newline>X'', field_ChunkField = []\<rparr>)"
    by (simp add: Let_def stEnd_def chEnd_def sliceDoc_def sliceString_def lineBreak_def
          cs_keepAll_def wholeDocOps_def wholeDocBuild_def specEndAccept_def accEffEnd_def)
  moreover from t vb have
    "rejectChunk_spec stEnd 2 = Inr (Some specEndReject) \<and>
     rejectChunk wholeDocOps () stEnd 2 =
       Inr (True, \<lparr>doc = ''a\<newline>b'', field_originalDoc = ''a\<newline>b'', field_ChunkField = []\<rparr>)"
    by (simp add: Let_def stEnd_def chEnd_def sliceDoc_def sliceString_def lineBreak_def
          cs_keepAll_def wholeDocOps_def wholeDocBuild_def specEndReject_def rejEffEnd_def)
  ultimately show ?thesis using c e by (simp only: simp_thms)
qed

section \<open>Mapping accept and reject effects\<close>

text \<open>
  For an effect whose \<open>chunkFromB\<close> and \<open>chunkToB\<close> are positions of the document that the
  change applies to, mapping remaps exactly these two coordinates with \<open>mapPos\<close>, leaves
  every other field of the value as it is, and drops the effect exactly when the mapped
  \<open>chunkFromB\<close> is not below the mapped \<open>chunkToB\<close>.
\<close>

lemma effect_map_in_range:
  "(chunkFromB v \<le> cs_length change \<and> chunkToB v \<le> cs_length change \<longrightarrow>
      (\<exists>f t. mapPos change (chunkFromB v) = Inr f \<and> mapPos change (chunkToB v) = Inr t \<and>
             acceptChunkEffect_map v change =
               Inr (if f < t then Some (v\<lparr>chunkFromB := f, chunkToB := t\<rparr>) else None))) \<and>
   (chunkFromB w \<le> cs_length change \<and> chunkToB w \<le> cs_length change \<longrightarrow>
      (\<exists>f t. mapPos change (chunkFromB w) = Inr f \<and> mapPos change (chunkToB w) = Inr t \<and>
             rejectChunkEffect_map w change =
               Inr (if f < t then Some (w\<lparr>chunkFromB := f, chunkToB := t\<rparr>) else None)))"
proof (intro conjI impI)
  assume h: "chunkFromB v \<le> cs_length change \<and> chunkToB v \<le> cs_length change"
  from h mapPos_in_range [of "chunkFromB v" change] obtain f where
    f: "mapPos change (chunkFromB v) = Inr f" by blast
  from h mapPos_in_range [of "chunkToB v" change] obtain t where
    t: "mapPos change (chunkToB v) = Inr t" by blast
  have "acceptChunkEffect_map v change =
               Inr (if f < t then Some (v\<lparr>chunkFromB := f, chunkToB := t\<rparr>) else None)"
    by (simp add: acceptChunkEffect_map_def f t)
  with f t show "\<exists>f t. mapPos change (chunkFromB v) = Inr f \<and> mapPos change (chunkToB v) = Inr t \<and>
             acceptChunkEffect_map v change =
               Inr (if f < t then Some (v\<lparr>chunkFromB := f, chunkToB := t\<rparr>) else None)"
    by (intro exI [of _ f] exI [of _ t] conjI)
next
  assume h: "chunkFromB w \<le> cs_length change \<and> chunkToB w \<le> cs_length change"
  from h mapPos_in_range [of "chunkFromB w" change] obtain f where
    f: "mapPos change (chunkFromB w) = Inr f" by blast
  from h mapPos_in_range [of "chunkToB w" change] obtain t where
    t: "mapPos change (chunkToB w) = Inr t" by blast
  have "rejectChunkEffect_map w change =
               Inr (if f < t then Some (w\<lparr>chunkFromB := f, chunkToB := t\<rparr>) else None)"
    by (simp add: rejectChunkEffect_map_def f t)
  with f t show "\<exists>f t. mapPos change (chunkFromB w) = Inr f \<and> mapPos change (chunkToB w) = Inr t \<and>
             rejectChunkEffect_map w change =
               Inr (if f < t then Some (w\<lparr>chunkFromB := f, chunkToB := t\<rparr>) else None)"
    by (intro exI [of _ f] exI [of _ t] conjI)
qed

text \<open>
  C10. On \<open>stEnd\<close> the chunk holds the last line. \<open>acceptChunk\<close> and \<open>rejectChunk\<close>
  clamp the end of the edit they build to the document's length 3, and store the chunk's
  own \<open>toB = 4\<close> in the effect; the effect that the history records to undo the reject
  keeps it too. Mapping any of these effects through a change of the document (a character
  inserted at its start, or no change at all) neither remaps nor drops it: \<open>mapPos\<close>
  raises a RangeError.
\<close>

theorem effect_map_raises_for_last_line_chunk:
  "length (doc stEnd) = 3 \<and>
   rejectChunk_spec stEnd 2 = Inr (Some specEndReject) \<and>
   spec_changes specEndReject = Some (Replacement 2 3 ''b'') \<and>
   spec_effects specEndReject = [RejectChunkEffect rejEffEnd] \<and>
   chunkToB rejEffEnd = 4 \<and>
   acceptChunk_spec stEnd 2 = Inr (Some specEndAccept) \<and>
   spec_effects specEndAccept = [AcceptChunkEffect accEffEnd] \<and>
   chunkToB accEffEnd = 4 \<and>
   ChangeSet_of (Replacement 0 0 ''z'') (length (doc stEnd)) = Inr [Replace 0 ''z'', Keep 3] \<and>
   rejectChunkEffect_map rejEffEnd [Replace 0 ''z'', Keep 3] = Inl RangeError \<and>
   acceptChunkEffect_map accEffEnd [Replace 0 ''z'', Keep 3] = Inl RangeError \<and>
   rejectChunkEffect_map rejEffEnd (cs_keepAll 3) = Inl RangeError \<and>
   acceptChunkEffect_map accEffEnd (cs_keepAll 3) = Inl RangeError \<and>
   state_update stEnd specEndReject = Inr trEndReject \<and>
   map_option spec_effects (history_event trEndReject) = Some [RejectChunkEffect rejEffEndUndo] \<and>
   map_sum id doc (tr_state wholeDocOps () trEndReject) = Inr ''a\<newline>b'' \<and>
   rejectChunkEffect_map rejEffEndUndo [Replace 0 ''z'', Keep 3] = Inl RangeError"
  by code_simp

section \<open>When the chunk list is rebuilt\<close>

text \<open>
  Generated code that is inserted at a position (\<open>replaceAll: false\<close>) is not a replacement
  of the whole document, and its transaction still calls \<open>Chunk.build\<close>. A typed character
  in a document that equals the original, where the chunk list is empty, changes the
  document and calls none of the three chunk operations: the chunk list stays empty.
\<close>

theorem rebuild_counterexample:
  "applyGeneratedCode_spec stMid 0 ''Z'' (Some False) (Some 1) =
     \<lparr>spec_changes = Some (Replacement 1 1 ''Z''),
      spec_effects = [GenerateCodeEffect ''Z'' False (Some 1)],
      spec_userEvent = ''generate.code''\<rparr> \<and>
   Replacement 1 1 ''Z'' \<noteq> Replacement 0 (length (doc stMid)) ''Z'' \<and>
   state_update stMid (applyGeneratedCode_spec stMid 0 ''Z'' (Some False) (Some 1)) =
     Inr trGenInsert \<and>
   map_sum id fst (computeChunks wholeDocOps () (field_ChunkField stMid) trGenInsert) =
     Inr [CallBuild, CallUpdateB] \<and>
   state_update stSame specType = Inr trType \<and>
   tr_docChanged trType \<and>
   computeChunks wholeDocOps () (field_ChunkField stSame) trType = Inr ([], []) \<and>
   tr_state wholeDocOps () trType =
     Inr \<lparr>doc = ''za\<newline>b'', field_originalDoc = ''a\<newline>b'', field_ChunkField = []\<rparr>"
  by code_simp

text \<open>The steps of the reducer, for a transaction on which it returns.\<close>

lemma computeChunks_steps:
  assumes cc: "computeChunks ops diffConf chunks0 tr = Inr (calls, chunks')"
  shows "\<exists>chunks1 chunks2 chunks3 origDoc newDoc.
           tr_originalDoc tr = Inr origDoc \<and> tr_newDoc tr = Inr newDoc \<and>
           (case find is_updateOriginalDoc (tr_effects tr) of
              None \<Rightarrow> chunks1 = chunks0
            | Some e \<Rightarrow>
                (\<exists>d cs. e = UpdateOriginalDoc d cs \<and>
                        chunks1 = Chunk_updateA ops chunks0 d (doc (tr_startState tr)) cs diffConf)) \<and>
           (case find is_acceptChunkEffect (tr_effects tr) of
              None \<Rightarrow> chunks2 = chunks1
            | Some e \<Rightarrow>
                (\<exists>v newA. e = AcceptChunkEffect v \<and>
                          cs_apply (changes v) (field_originalDoc (tr_startState tr)) = Inr newA \<and>
                          chunks2 = Chunk_updateA ops chunks1 newA (doc (tr_startState tr))
                                      (changes v) diffConf)) \<and>
           chunks3 = (if find is_generateCodeEffect (tr_effects tr) \<noteq> None
                      then Chunk_build ops origDoc newDoc diffConf else chunks2) \<and>
           chunks' = (if find is_rejectChunkEffect (tr_effects tr) \<noteq> None \<or>
                         (chunks3 \<noteq> [] \<and> tr_docChanged tr)
                      then Chunk_updateB ops chunks3 origDoc newDoc (tr_changes tr) diffConf
                      else chunks3) \<and>
           calls =
             (if find is_updateOriginalDoc (tr_effects tr) \<noteq> None then [CallUpdateA] else []) @
             (if find is_acceptChunkEffect (tr_effects tr) \<noteq> None then [CallUpdateA] else []) @
             (if find is_generateCodeEffect (tr_effects tr) \<noteq> None then [CallBuild] else []) @
             (if find is_rejectChunkEffect (tr_effects tr) \<noteq> None \<or>
                 (chunks3 \<noteq> [] \<and> tr_docChanged tr)
              then [CallUpdateB] else []) \<and>
           (CallBuild \<in> set calls \<longleftrightarrow> find is_generateCodeEffect (tr_effects tr) \<noteq> None)"

proof -
  define r1 where "r1 = (case find is_updateOriginalDoc (tr_effects tr) of
                  Some (UpdateOriginalDoc d cs) \<Rightarrow>
                    ([CallUpdateA],
                     Chunk_updateA ops chunks0 d (doc (tr_startState tr)) cs diffConf)
                | _ \<Rightarrow> ([], chunks0))"
  define p2 where "p2 = (case find is_acceptChunkEffect (tr_effects tr) of
                 Some (AcceptChunkEffect v) \<Rightarrow>
                   (case cs_apply (changes v) (field_originalDoc (tr_startState tr)) of
                      Inl e \<Rightarrow> Inl e
                    | Inr newA \<Rightarrow>
                        Inr (fst r1 @ [CallUpdateA],
                             Chunk_updateA ops (snd r1) newA (doc (tr_startState tr))
                               (changes v) diffConf))
               | _ \<Rightarrow> Inr r1)"
  have f1: "fst r1 = (if find is_updateOriginalDoc (tr_effects tr) \<noteq> None then [CallUpdateA] else [])"
    unfolding r1_def
    by (auto split: option.splits StateEffect.splits dest: find_updateOriginalDoc_Some)
  have s1: "(case find is_updateOriginalDoc (tr_effects tr) of
              None \<Rightarrow> snd r1 = chunks0
            | Some e \<Rightarrow>
                (\<exists>d cs. e = UpdateOriginalDoc d cs \<and>
                        snd r1 = Chunk_updateA ops chunks0 d (doc (tr_startState tr)) cs diffConf))"
    unfolding r1_def
    by (auto split: option.splits StateEffect.splits dest: find_updateOriginalDoc_Some)
  have eq: "computeChunks ops diffConf chunks0 tr =
     (case p2 of
           Inl e \<Rightarrow> Inl e
         | Inr r2 \<Rightarrow>
             (case tr_originalDoc tr of
                Inl e \<Rightarrow> Inl e
              | Inr origDoc \<Rightarrow>
                  (case tr_newDoc tr of
                     Inl e \<Rightarrow> Inl e
                   | Inr newDoc \<Rightarrow>
                       (let r3 = (if find is_generateCodeEffect (tr_effects tr) \<noteq> None
                                  then (fst r2 @ [CallBuild],
                                        Chunk_build ops origDoc newDoc diffConf)
                                  else r2)
                        in Inr (if find is_rejectChunkEffect (tr_effects tr) \<noteq> None \<or> (snd r3 \<noteq> [] \<and> tr_docChanged tr)
                                then (fst r3 @ [CallUpdateB],
                                      Chunk_updateB ops (snd r3) origDoc newDoc
                                        (tr_changes tr) diffConf)
                                else r3)))))"
    unfolding computeChunks_def p2_def r1_def Let_def ..
  from cc eq obtain r2 origDoc newDoc where
    p2: "p2 = Inr r2" and od: "tr_originalDoc tr = Inr origDoc" and nd: "tr_newDoc tr = Inr newDoc"
    by (auto split: sum.splits)
  have f2: "fst r2 = fst r1 @ (if find is_acceptChunkEffect (tr_effects tr) \<noteq> None then [CallUpdateA] else [])"
    using p2 unfolding p2_def
    by (auto split: option.splits StateEffect.splits sum.splits dest: find_acceptChunkEffect_Some)
  have s2: "(case find is_acceptChunkEffect (tr_effects tr) of
              None \<Rightarrow> snd r2 = snd r1
            | Some e \<Rightarrow>
                (\<exists>v newA. e = AcceptChunkEffect v \<and>
                          cs_apply (changes v) (field_originalDoc (tr_startState tr)) = Inr newA \<and>
                          snd r2 = Chunk_updateA ops (snd r1) newA (doc (tr_startState tr))
                                      (changes v) diffConf))"
    using p2 unfolding p2_def
    by (auto split: option.splits StateEffect.splits sum.splits dest: find_acceptChunkEffect_Some)
  define r3 where "r3 = (if find is_generateCodeEffect (tr_effects tr) \<noteq> None
                                  then (fst r2 @ [CallBuild],
                                        Chunk_build ops origDoc newDoc diffConf)
                                  else r2)"
  have f3: "fst r3 = fst r2 @ (if find is_generateCodeEffect (tr_effects tr) \<noteq> None then [CallBuild] else [])"
    and s3: "snd r3 = (if find is_generateCodeEffect (tr_effects tr) \<noteq> None
                      then Chunk_build ops origDoc newDoc diffConf else snd r2)"
    by (simp_all add: r3_def)
  have res: "(calls, chunks') =
      (if find is_rejectChunkEffect (tr_effects tr) \<noteq> None \<or> (snd r3 \<noteq> [] \<and> tr_docChanged tr)
       then (fst r3 @ [CallUpdateB],
             Chunk_updateB ops (snd r3) origDoc newDoc (tr_changes tr) diffConf)
       else r3)"
    using cc unfolding eq p2 od nd r3_def Let_def by simp
  have c: "calls = fst r3 @ (if find is_rejectChunkEffect (tr_effects tr) \<noteq> None \<or>
                     (snd r3 \<noteq> [] \<and> tr_docChanged tr) then [CallUpdateB] else [])"
    using res by (auto split: if_splits simp: prod_eq_iff)
  have k: "chunks' = (if find is_rejectChunkEffect (tr_effects tr) \<noteq> None \<or>
                         (snd r3 \<noteq> [] \<and> tr_docChanged tr)
                      then Chunk_updateB ops (snd r3) origDoc newDoc (tr_changes tr) diffConf
                      else snd r3)"
    using res by (auto split: if_splits simp: prod_eq_iff)
  have calls: "calls =
             (if find is_updateOriginalDoc (tr_effects tr) \<noteq> None then [CallUpdateA] else []) @
             (if find is_acceptChunkEffect (tr_effects tr) \<noteq> None then [CallUpdateA] else []) @
             (if find is_generateCodeEffect (tr_effects tr) \<noteq> None then [CallBuild] else []) @
             (if find is_rejectChunkEffect (tr_effects tr) \<noteq> None \<or>
                 (snd r3 \<noteq> [] \<and> tr_docChanged tr)
              then [CallUpdateB] else [])"
    unfolding c f3 f2 f1 by simp
  have b: "CallBuild \<in> set calls \<longleftrightarrow> find is_generateCodeEffect (tr_effects tr) \<noteq> None"
    unfolding calls by simp
  show ?thesis
    apply (rule exI [of _ "snd r1"])
    apply (rule exI [of _ "snd r2"])
    apply (rule exI [of _ "snd r3"])
    apply (rule exI [of _ origDoc])
    apply (rule exI [of _ newDoc])
    using od nd s1 s2 s3 k calls b by (simp only: simp_thms)
qed

text \<open>
  C6 (amended). A transaction calls \<open>Chunk.build\<close> exactly when it carries a
  \<open>generateCodeEffect\<close>, whatever the edit is. The reducer returns a call log and a chunk
  list exactly when they are the ones of these steps, in this order: \<open>Chunk.updateA\<close>
  with the effect's document and changes for an \<open>updateOriginalDoc\<close> effect; then
  \<open>Chunk.updateA\<close> with the accept's changes applied to the original document for an
  accept effect; then, only with a \<open>generateCodeEffect\<close>, \<open>Chunk.build\<close> on the new
  original and the new document; then \<open>Chunk.updateB\<close> with the transaction's changes when
  the transaction carries a reject effect or when it changes the document while the chunk
  list reached so far is not empty. A step that does not apply leaves the chunk list as
  it is, and nothing else is called.
\<close>

theorem rebuild_only_for_generated_code:
  "computeChunks ops diffConf chunks0 tr = Inr (calls, chunks') \<longleftrightarrow>
   (\<exists>chunks1 chunks2 chunks3 origDoc newDoc.
               tr_originalDoc tr = Inr origDoc \<and> tr_newDoc tr = Inr newDoc \<and>
               (case find is_updateOriginalDoc (tr_effects tr) of
                  None \<Rightarrow> chunks1 = chunks0
                | Some e \<Rightarrow>
                    (\<exists>d cs. e = UpdateOriginalDoc d cs \<and>
                            chunks1 = Chunk_updateA ops chunks0 d (doc (tr_startState tr)) cs diffConf)) \<and>
               (case find is_acceptChunkEffect (tr_effects tr) of
                  None \<Rightarrow> chunks2 = chunks1
                | Some e \<Rightarrow>
                    (\<exists>v newA. e = AcceptChunkEffect v \<and>
                              cs_apply (changes v) (field_originalDoc (tr_startState tr)) = Inr newA \<and>
                              chunks2 = Chunk_updateA ops chunks1 newA (doc (tr_startState tr))
                                          (changes v) diffConf)) \<and>
               chunks3 = (if find is_generateCodeEffect (tr_effects tr) \<noteq> None
                          then Chunk_build ops origDoc newDoc diffConf else chunks2) \<and>
               chunks' = (if find is_rejectChunkEffect (tr_effects tr) \<noteq> None \<or>
                             (chunks3 \<noteq> [] \<and> tr_docChanged tr)
                          then Chunk_updateB ops chunks3 origDoc newDoc (tr_changes tr) diffConf
                          else chunks3) \<and>
               calls =
                 (if find is_updateOriginalDoc (tr_effects tr) \<noteq> None then [CallUpdateA] else []) @
                 (if find is_acceptChunkEffect (tr_effects tr) \<noteq> None then [CallUpdateA] else []) @
                 (if find is_generateCodeEffect (tr_effects tr) \<noteq> None then [CallBuild] else []) @
                 (if find is_rejectChunkEffect (tr_effects tr) \<noteq> None \<or>
                     (chunks3 \<noteq> [] \<and> tr_docChanged tr)
                  then [CallUpdateB] else []) \<and>
               (CallBuild \<in> set calls \<longleftrightarrow> find is_generateCodeEffect (tr_effects tr) \<noteq> None))"
proof
  assume "computeChunks ops diffConf chunks0 tr = Inr (calls, chunks')"
  then show "\<exists>chunks1 chunks2 chunks3 origDoc newDoc.
           tr_originalDoc tr = Inr origDoc \<and> tr_newDoc tr = Inr newDoc \<and>
           (case find is_updateOriginalDoc (tr_effects tr) of
              None \<Rightarrow> chunks1 = chunks0
            | Some e \<Rightarrow>
                (\<exists>d cs. e = UpdateOriginalDoc d cs \<and>
                        chunks1 = Chunk_updateA ops chunks0 d (doc (tr_startState tr)) cs diffConf)) \<and>
           (case find is_acceptChunkEffect (tr_effects tr) of
              None \<Rightarrow> chunks2 = chunks1
            | Some e \<Rightarrow>
                (\<exists>v newA. e = AcceptChunkEffect v \<and>
                          cs_apply (changes v) (field_originalDoc (tr_startState tr)) = Inr newA \<and>
                          chunks2 = Chunk_updateA ops chunks1 newA (doc (tr_startState tr))
                                      (changes v) diffConf)) \<and>
           chunks3 = (if find is_generateCodeEffect (tr_effects tr) \<noteq> None
                      then Chunk_build ops origDoc newDoc diffConf else chunks2) \<and>
           chunks' = (if find is_rejectChunkEffect (tr_effects tr) \<noteq> None \<or>
                         (chunks3 \<noteq> [] \<and> tr_docChanged tr)
                      then Chunk_updateB ops chunks3 origDoc newDoc (tr_changes tr) diffConf
                      else chunks3) \<and>
           calls =
             (if find is_updateOriginalDoc (tr_effects tr) \<noteq> None then [CallUpdateA] else []) @
             (if find is_acceptChunkEffect (tr_effects tr) \<noteq> None then [CallUpdateA] else []) @
             (if find is_generateCodeEffect (tr_effects tr) \<noteq> None then [CallBuild] else []) @
             (if find is_rejectChunkEffect (tr_effects tr) \<noteq> None \<or>
                 (chunks3 \<noteq> [] \<and> tr_docChanged tr)
              then [CallUpdateB] else []) \<and>
           (CallBuild \<in> set calls \<longleftrightarrow> find is_generateCodeEffect (tr_effects tr) \<noteq> None)"
    by (rule computeChunks_steps)
next
  assume rhs: "\<exists>chunks1 chunks2 chunks3 origDoc newDoc.
           tr_originalDoc tr = Inr origDoc \<and> tr_newDoc tr = Inr newDoc \<and>
           (case find is_updateOriginalDoc (tr_effects tr) of
              None \<Rightarrow> chunks1 = chunks0
            | Some e \<Rightarrow>
                (\<exists>d cs. e = UpdateOriginalDoc d cs \<and>
                        chunks1 = Chunk_updateA ops chunks0 d (doc (tr_startState tr)) cs diffConf)) \<and>
           (case find is_acceptChunkEffect (tr_effects tr) of
              None \<Rightarrow> chunks2 = chunks1
            | Some e \<Rightarrow>
                (\<exists>v newA. e = AcceptChunkEffect v \<and>
                          cs_apply (changes v) (field_originalDoc (tr_startState tr)) = Inr newA \<and>
                          chunks2 = Chunk_updateA ops chunks1 newA (doc (tr_startState tr))
                                      (changes v) diffConf)) \<and>
           chunks3 = (if find is_generateCodeEffect (tr_effects tr) \<noteq> None
                      then Chunk_build ops origDoc newDoc diffConf else chunks2) \<and>
           chunks' = (if find is_rejectChunkEffect (tr_effects tr) \<noteq> None \<or>
                         (chunks3 \<noteq> [] \<and> tr_docChanged tr)
                      then Chunk_updateB ops chunks3 origDoc newDoc (tr_changes tr) diffConf
                      else chunks3) \<and>
           calls =
             (if find is_updateOriginalDoc (tr_effects tr) \<noteq> None then [CallUpdateA] else []) @
             (if find is_acceptChunkEffect (tr_effects tr) \<noteq> None then [CallUpdateA] else []) @
             (if find is_generateCodeEffect (tr_effects tr) \<noteq> None then [CallBuild] else []) @
             (if find is_rejectChunkEffect (tr_effects tr) \<noteq> None \<or>
                 (chunks3 \<noteq> [] \<and> tr_docChanged tr)
              then [CallUpdateB] else []) \<and>
           (CallBuild \<in> set calls \<longleftrightarrow> find is_generateCodeEffect (tr_effects tr) \<noteq> None)"
  then obtain chunks1 chunks2 chunks3 origDoc newDoc where
    od: "tr_originalDoc tr = Inr origDoc" and nd: "tr_newDoc tr = Inr newDoc"
    and c1: "(case find is_updateOriginalDoc (tr_effects tr) of
              None \<Rightarrow> chunks1 = chunks0
            | Some e \<Rightarrow>
                (\<exists>d cs. e = UpdateOriginalDoc d cs \<and>
                        chunks1 = Chunk_updateA ops chunks0 d (doc (tr_startState tr)) cs diffConf))"
    and c2: "(case find is_acceptChunkEffect (tr_effects tr) of
              None \<Rightarrow> chunks2 = chunks1
            | Some e \<Rightarrow>
                (\<exists>v newA. e = AcceptChunkEffect v \<and>
                          cs_apply (changes v) (field_originalDoc (tr_startState tr)) = Inr newA \<and>
                          chunks2 = Chunk_updateA ops chunks1 newA (doc (tr_startState tr))
                                      (changes v) diffConf))"
    and c3: "chunks3 = (if find is_generateCodeEffect (tr_effects tr) \<noteq> None
                      then Chunk_build ops origDoc newDoc diffConf else chunks2)"
    and c4: "chunks' = (if find is_rejectChunkEffect (tr_effects tr) \<noteq> None \<or>
                         (chunks3 \<noteq> [] \<and> tr_docChanged tr)
                      then Chunk_updateB ops chunks3 origDoc newDoc (tr_changes tr) diffConf
                      else chunks3)"
    and c5: "calls =
             (if find is_updateOriginalDoc (tr_effects tr) \<noteq> None then [CallUpdateA] else []) @
             (if find is_acceptChunkEffect (tr_effects tr) \<noteq> None then [CallUpdateA] else []) @
             (if find is_generateCodeEffect (tr_effects tr) \<noteq> None then [CallBuild] else []) @
             (if find is_rejectChunkEffect (tr_effects tr) \<noteq> None \<or>
                 (chunks3 \<noteq> [] \<and> tr_docChanged tr)
              then [CallUpdateB] else [])"
    by blast
  have ok: "\<exists>r. computeChunks ops diffConf chunks0 tr = Inr r"
    using c2 od nd
    by (auto simp add: computeChunks_def Let_def split: option.splits StateEffect.splits)
  then obtain calls0 chunks0' where r: "computeChunks ops diffConf chunks0 tr = Inr (calls0, chunks0')"
    by (cases, auto)
  from computeChunks_steps [OF r] obtain d1 d2 d3 o' n' where
    od': "tr_originalDoc tr = Inr o'" and nd': "tr_newDoc tr = Inr n'"
    and e1: "(case find is_updateOriginalDoc (tr_effects tr) of
              None \<Rightarrow> d1 = chunks0
            | Some e \<Rightarrow>
                (\<exists>d cs. e = UpdateOriginalDoc d cs \<and>
                        d1 = Chunk_updateA ops chunks0 d (doc (tr_startState tr)) cs diffConf))"
    and e2: "(case find is_acceptChunkEffect (tr_effects tr) of
              None \<Rightarrow> d2 = d1
            | Some e \<Rightarrow>
                (\<exists>v newA. e = AcceptChunkEffect v \<and>
                          cs_apply (changes v) (field_originalDoc (tr_startState tr)) = Inr newA \<and>
                          d2 = Chunk_updateA ops d1 newA (doc (tr_startState tr))
                                      (changes v) diffConf))"
    and e3: "d3 = (if find is_generateCodeEffect (tr_effects tr) \<noteq> None
                      then Chunk_build ops o' n' diffConf else d2)"
    and e4: "chunks0' = (if find is_rejectChunkEffect (tr_effects tr) \<noteq> None \<or>
                         (d3 \<noteq> [] \<and> tr_docChanged tr)
                      then Chunk_updateB ops d3 o' n' (tr_changes tr) diffConf
                      else d3)"
    and e5: "calls0 =
             (if find is_updateOriginalDoc (tr_effects tr) \<noteq> None then [CallUpdateA] else []) @
             (if find is_acceptChunkEffect (tr_effects tr) \<noteq> None then [CallUpdateA] else []) @
             (if find is_generateCodeEffect (tr_effects tr) \<noteq> None then [CallBuild] else []) @
             (if find is_rejectChunkEffect (tr_effects tr) \<noteq> None \<or>
                 (d3 \<noteq> [] \<and> tr_docChanged tr)
              then [CallUpdateB] else [])"
    by blast
  have o: "o' = origDoc" "n' = newDoc" using od od' nd nd' by simp_all
  have q1: "d1 = chunks1" using c1 e1 by (auto split: option.splits)
  have q2: "d2 = chunks2" using c2 e2 q1 by (auto split: option.splits)
  have q3: "d3 = chunks3" using c3 e3 q2 o by simp
  have "chunks0' = chunks'" using c4 e4 q3 o by simp
  moreover have "calls0 = calls" using c5 e5 q3 by simp
  ultimately show "computeChunks ops diffConf chunks0 tr = Inr (calls, chunks')"
    using r by simp
qed

theorem rebuild_only_for_generated_code_witness:
  "computeChunks wholeDocOps () (field_ChunkField stMid) trTypeMid =
     Inr ([CallUpdateB], [chWholeTypeMid]) \<and>
   (\<exists>chunks1 chunks2 chunks3 origDoc newDoc.
           tr_originalDoc trTypeMid = Inr origDoc \<and> tr_newDoc trTypeMid = Inr newDoc \<and>
           (case find is_updateOriginalDoc (tr_effects trTypeMid) of
              None \<Rightarrow> chunks1 = (field_ChunkField stMid)
            | Some e \<Rightarrow>
                (\<exists>d cs. e = UpdateOriginalDoc d cs \<and>
                        chunks1 = Chunk_updateA wholeDocOps (field_ChunkField stMid) d (doc (tr_startState trTypeMid)) cs ())) \<and>
           (case find is_acceptChunkEffect (tr_effects trTypeMid) of
              None \<Rightarrow> chunks2 = chunks1
            | Some e \<Rightarrow>
                (\<exists>v newA. e = AcceptChunkEffect v \<and>
                          cs_apply (changes v) (field_originalDoc (tr_startState trTypeMid)) = Inr newA \<and>
                          chunks2 = Chunk_updateA wholeDocOps chunks1 newA (doc (tr_startState trTypeMid))
                                      (changes v) ())) \<and>
           chunks3 = (if find is_generateCodeEffect (tr_effects trTypeMid) \<noteq> None
                      then Chunk_build wholeDocOps origDoc newDoc () else chunks2) \<and>
           [chWholeTypeMid] = (if find is_rejectChunkEffect (tr_effects trTypeMid) \<noteq> None \<or>
                         (chunks3 \<noteq> [] \<and> tr_docChanged trTypeMid)
                      then Chunk_updateB wholeDocOps chunks3 origDoc newDoc (tr_changes trTypeMid) ()
                      else chunks3) \<and>
           [CallUpdateB] =
             (if find is_updateOriginalDoc (tr_effects trTypeMid) \<noteq> None then [CallUpdateA] else []) @
             (if find is_acceptChunkEffect (tr_effects trTypeMid) \<noteq> None then [CallUpdateA] else []) @
             (if find is_generateCodeEffect (tr_effects trTypeMid) \<noteq> None then [CallBuild] else []) @
             (if find is_rejectChunkEffect (tr_effects trTypeMid) \<noteq> None \<or>
                 (chunks3 \<noteq> [] \<and> tr_docChanged trTypeMid)
              then [CallUpdateB] else []) \<and>
           (CallBuild \<in> set [CallUpdateB] \<longleftrightarrow> find is_generateCodeEffect (tr_effects trTypeMid) \<noteq> None))"
proof -
  have c: "computeChunks wholeDocOps () (field_ChunkField stMid) trTypeMid =
             Inr ([CallUpdateB], [chWholeTypeMid])"
    by code_simp
  from c rebuild_only_for_generated_code
    [of wholeDocOps "()" "field_ChunkField stMid" trTypeMid "[CallUpdateB]" "[chWholeTypeMid]",
     THEN iffD1, OF c]
  show ?thesis by (rule conjI)
qed

section \<open>Undoing an accept\<close>

text \<open>
  C1. On \<open>stMid\<close>, accepting the chunk at position 2 gives the transaction \<open>trAccMid\<close>;
  the history records \<open>specUndoMid\<close> for it, whose effect is an \<open>updateOriginalDoc\<close>.
  For the transaction \<open>trUndoMid\<close> that undoes the accept, the function registered by
  \<open>createUndoableChunkOperations\<close> returns no effect: the inverse of the inverse of the
  accept is empty, not the accept, and the history records nothing to redo.
\<close>

theorem accept_undo_records_no_inverse:
  "acceptChunk_spec stMid 2 = Inr (Some specAccMid) \<and>
   state_update stMid specAccMid = Inr trAccMid \<and>
   tr_state wholeDocOps () trAccMid = Inr stMidAccepted \<and>
   history_event trAccMid = Some specUndoMid \<and>
   state_update stMidAccepted specUndoMid = Inr trUndoMid \<and>
   undoableChunkOperations trUndoMid = [] \<and>
   history_event trUndoMid = None \<and>
   undoableChunkOperations trUndoMid \<noteq> tr_effects trAccMid"
  by code_simp

end
